theory Spec2Isabelle
  imports Complex_Main
begin

section \<open>Text\<close>

text \<open>
  A Python \<open>str\<close> is a sequence of Unicode code points, so text is a list of code
  points (\<open>nat\<close>). ASCII literals are written through \<open>of_char\<close>.
  Weights and time stamps are Python floats. A float is the real number it stands
  for. The rounding of the interpreter's binary arithmetic is a parameter \<open>rnd\<close>
  (the nearest float of a real): \<open>float(text)\<close> is the rounded value of the
  decimal, and the sum that the adjustment command tests against 0 is the rounded sum.
  The sums that only pass through a clamp (the +0.1 of a repeated add, the +0.5 of a
  revision) and the bounds 0.01 and 5.0 are taken exactly: rounding moves the stored
  value by a rounding error and decides nothing there.
\<close>

type_synonym pystr = "nat list"

abbreviation (input) ascii :: "string \<Rightarrow> pystr" where
  "ascii s \<equiv> map of_char s"

text \<open>
  \<open>str.isspace\<close> on one code point; \<open>str.strip()\<close> and the pattern class
  \<open>\s\<close> use the same set: U+0009..U+000D, U+001C..U+0020, U+0085, U+00A0, U+1680,
  U+2000..U+200A, U+2028, U+2029, U+202F, U+205F, U+3000.
\<close>

definition isspace_c :: "nat \<Rightarrow> bool" where
  "isspace_c c \<longleftrightarrow>
     (9 \<le> c \<and> c \<le> 13) \<or> (28 \<le> c \<and> c \<le> 32) \<or> c = 133 \<or> c = 160 \<or> c = 5760 \<or>
     (8192 \<le> c \<and> c \<le> 8202) \<or> c = 8232 \<or> c = 8233 \<or> c = 8239 \<or> c = 8287 \<or> c = 12288"

text \<open>
  The interpreter's Unicode character database is data outside the repository. Its
  part that the code depends on is a parameter: \<open>nd_value\<close> gives the digit value of
  a code point of category Nd beyond ASCII (the digits that \<open>\d\<close> matches and
  \<open>int()\<close> reads), \<open>digit_other\<close> holds of the further code points for which
  \<open>str.isdigit()\<close> is true although \<open>int()\<close> rejects them (superscript two, for
  one). The ASCII digits are fixed here.
\<close>

record ucd =
  nd_value :: "nat \<Rightarrow> nat option"
  digit_other :: "nat \<Rightarrow> bool"

definition is_decimal :: "ucd \<Rightarrow> nat \<Rightarrow> bool" where
  "is_decimal U c \<longleftrightarrow>
     (48 \<le> c \<and> c \<le> 57) \<or> (128 \<le> c \<and> \<not> isspace_c c \<and> nd_value U c \<noteq> None)"

definition decimal_value :: "ucd \<Rightarrow> nat \<Rightarrow> nat" where
  "decimal_value U c =
     (if c \<le> 57 then c - 48 else (case nd_value U c of Some v \<Rightarrow> v | None \<Rightarrow> 0))"

definition isdigit_c :: "ucd \<Rightarrow> nat \<Rightarrow> bool" where
  "isdigit_c U c \<longleftrightarrow> is_decimal U c \<or> (128 \<le> c \<and> digit_other U c)"

text \<open>\<open>s.isdigit()\<close>: a non-empty string of digit code points.\<close>

definition isdigit :: "ucd \<Rightarrow> pystr \<Rightarrow> bool" where
  "isdigit U s \<longleftrightarrow> s \<noteq> [] \<and> list_all (isdigit_c U) s"

text \<open>
  \<open>int(s)\<close> on a string of digits, the only strings the code passes to it (after
  \<open>isdigit()\<close>, or from a \<open>\d+\<close> group). \<open>None\<close> is the ValueError that
  \<open>int()\<close> raises on a digit that is not decimal.
\<close>

definition py_int :: "ucd \<Rightarrow> pystr \<Rightarrow> nat option" where
  "py_int U s =
     (if s \<noteq> [] \<and> list_all (is_decimal U) s
      then Some (foldl (\<lambda>a c. 10 * a + decimal_value U c) 0 s) else None)"

text \<open>\<open>s.strip(chars)\<close> and \<open>s.strip()\<close>.\<close>

definition strip_chars :: "(nat \<Rightarrow> bool) \<Rightarrow> pystr \<Rightarrow> pystr" where
  "strip_chars p s = rev (dropWhile p (rev (dropWhile p s)))"

definition strip :: "pystr \<Rightarrow> pystr" where
  "strip s = strip_chars isspace_c s"

text \<open>\<open>s.split(sep)\<close> for a one-character separator: never an empty list.\<close>

fun split_on :: "nat \<Rightarrow> pystr \<Rightarrow> pystr list" where
  "split_on d [] = [[]]"
| "split_on d (c # cs) =
     (if c = d then [] # split_on d cs
      else (let r = split_on d cs in (c # hd r) # tl r))"

text \<open>
  The value of a text in the decimal syntax that the command patterns capture in their
  weight groups, \<open>[+-]?[0-9]+(\.[0-9]+)?\<close>; \<open>None\<close> for any other text.
\<close>

definition ascii_digits :: "pystr \<Rightarrow> bool" where
  "ascii_digits s \<longleftrightarrow> s \<noteq> [] \<and> list_all (\<lambda>c. 48 \<le> c \<and> c \<le> 57) s"

definition digits_val :: "pystr \<Rightarrow> nat" where
  "digits_val s = foldl (\<lambda>a c. 10 * a + (c - 48)) 0 s"

definition unsigned_decimal :: "pystr \<Rightarrow> real option" where
  "unsigned_decimal s =
     (let ip = takeWhile (\<lambda>c. c \<noteq> 46) s; rest = dropWhile (\<lambda>c. c \<noteq> 46) s in
      if \<not> ascii_digits ip then None
      else if rest = [] then Some (real (digits_val ip))
      else if ascii_digits (tl rest)
        then Some (real (digits_val ip) + real (digits_val (tl rest)) / 10 ^ length (tl rest))
        else None)"

definition decimal_of :: "pystr \<Rightarrow> real option" where
  "decimal_of s =
     (case s of
        [] \<Rightarrow> None
      | c # cs \<Rightarrow>
          if c = 43 then unsigned_decimal cs
          else if c = 45 then map_option uminus (unsigned_decimal cs)
          else unsigned_decimal s)"

text \<open>
  \<open>float(s)\<close> on that syntax: the float nearest to the decimal. \<open>None\<close> is the
  ValueError of \<open>float()\<close>; this model also gives \<open>None\<close> on the further
  notations \<open>float()\<close> reads (exponents, \<open>inf\<close>, surrounding blanks), which no
  pattern lets through.
\<close>

definition py_float :: "(real \<Rightarrow> real) \<Rightarrow> pystr \<Rightarrow> real option" where
  "py_float rnd s = map_option rnd (decimal_of s)"

section \<open>The expression store\<close>

text \<open>
  \<open>Expression\<close> is the host's database table (a peewee model); the plugin reads and
  writes it through \<open>select/where\<close>, \<open>get\<close>, \<open>create\<close>, \<open>save\<close> and
  \<open>delete_instance\<close>. The table is a list of rows in table order; \<open>id\<close> is the
  primary key.
\<close>

record expression =
  expr_id :: nat
  chat_id :: pystr
  situation :: pystr
  style :: pystr
  count :: real
  last_active_time :: real
  create_date :: "real option"
  etype :: pystr

type_synonym store = "expression list"

datatype exn = DoesNotExist | ValueError | AttributeError | TypeError | OtherError

text \<open>\<open>Expression.get(cond)\<close>: the first row that satisfies \<open>cond\<close>, or DoesNotExist.\<close>

definition get :: "(expression \<Rightarrow> bool) \<Rightarrow> store \<Rightarrow> exn + expression" where
  "get cond st = (case find cond st of None \<Rightarrow> Inl DoesNotExist | Some e \<Rightarrow> Inr e)"

text \<open>\<open>obj.save()\<close> rewrites the row with the primary key of \<open>obj\<close>.\<close>

definition save :: "expression \<Rightarrow> store \<Rightarrow> store" where
  "save obj st = map (\<lambda>e. if expr_id e = expr_id obj then obj else e) st"

text \<open>\<open>obj.delete_instance()\<close> deletes the row with the primary key of \<open>obj\<close>.\<close>

definition delete_instance :: "expression \<Rightarrow> store \<Rightarrow> store" where
  "delete_instance obj st = filter (\<lambda>e. expr_id e \<noteq> expr_id obj) st"

text \<open>\<open>Expression.create(...)\<close> inserts a row under a key that no row has.\<close>

definition next_id :: "store \<Rightarrow> nat" where
  "next_id st = Suc (fold max (map expr_id st) 0)"

definition create ::
  "pystr \<Rightarrow> pystr \<Rightarrow> real \<Rightarrow> real \<Rightarrow> pystr \<Rightarrow> pystr \<Rightarrow> real \<Rightarrow> store \<Rightarrow> store" where
  "create sit sty cnt lat cid ty cd st =
     st @ [\<lparr>expr_id = next_id st, chat_id = cid, situation = sit, style = sty, count = cnt,
            last_active_time = lat, create_date = Some cd, etype = ty\<rparr>]"

section \<open>Resolving the target chat\<close>

text \<open>
  \<open>_parse_stream_config_to_chat_id\<close>. The host's
  \<open>ExpressionSelector._parse_stream_config_to_chat_id\<close> is the parameter \<open>sel\<close>: it
  raises, or returns a chat id or None.
\<close>

definition is_md5 :: "pystr \<Rightarrow> bool" where
  "is_md5 s \<longleftrightarrow>
     length s = 32 \<and> list_all (\<lambda>c. (97 \<le> c \<and> c \<le> 102) \<or> (48 \<le> c \<and> c \<le> 57)) s"

definition parse_stream_config_to_chat_id ::
  "(pystr \<Rightarrow> exn + pystr option) \<Rightarrow> pystr \<Rightarrow> pystr option" where
  "parse_stream_config_to_chat_id sel stream_config_str =
     (if stream_config_str = [] then None
      else (let candidate = strip stream_config_str in
        if is_md5 candidate then Some candidate
        else (case sel candidate of Inl _ \<Rightarrow> None | Inr r \<Rightarrow> r)))"

record chat_stream =
  stream_id :: "pystr option"

record message =
  raw_message :: "pystr option"
  chat_stream :: "chat_stream option"

text \<open>
  The block every store command repeats after matching: resolve the \<open>in <chat>\<close>
  group, and when that gives None use the \<open>stream_id\<close> of the chat the command came
  from, if it has a non-empty one. \<open>None\<close> here is the "no target chat" reply.
\<close>

definition target_chat_id ::
  "(pystr \<Rightarrow> exn + pystr option) \<Rightarrow> pystr \<Rightarrow> message \<Rightarrow> pystr option" where
  "target_chat_id sel chat_spec msg =
     (case parse_stream_config_to_chat_id sel chat_spec of
        Some cid \<Rightarrow> Some cid
      | None \<Rightarrow>
          (case chat_stream msg of
             None \<Rightarrow> None
           | Some cs \<Rightarrow>
               (case stream_id cs of
                  None \<Rightarrow> None
                | Some sid \<Rightarrow> if sid = [] then None else Some sid)))"

section \<open>The store commands\<close>

text \<open>
  A command returns \<open>(success, message, True)\<close>. The message texts are constructors
  that carry the values the text is formatted from.
\<close>

datatype reply =
    UsageAdd
  | UsageDel
  | UsageModify
  | NoTargetChat
  | DuplicateBoosted real
  | Added
  | Deleted pystr
  | IdNotFound pystr
  | WeightNotNumber
  | NotFoundInChat
  | AutoDeleted real
  | WeightUpdated pystr real

type_synonym result = "bool \<times> reply \<times> bool"

text \<open>
  \<open>re.match(command_pattern, text)\<close> is an argument of each command: \<open>None\<close> when
  the pattern does not match, else the groups (an optional group that took no part is
  \<open>None\<close>). The patterns are given in the section on the command patterns.
\<close>

text \<open>\<open>AddExpressionCommand.execute\<close>\<close>

definition add_execute ::
  "(real \<Rightarrow> real) \<Rightarrow> (pystr \<Rightarrow> exn + pystr option) \<Rightarrow> real \<Rightarrow> message \<Rightarrow>
   (pystr \<times> pystr \<times> pystr option \<times> pystr option) option \<Rightarrow> store \<Rightarrow> result \<times> store" where
  "add_execute rnd sel now_ts msg m st =
     (case m of
        None \<Rightarrow> ((False, UsageAdd, True), st)
      | Some (g1, g2, g3, g4) \<Rightarrow>
          (let situation' = strip g1;
               style' = strip g2;
               chat_spec = (case g3 of None \<Rightarrow> [] | Some s \<Rightarrow> s);
               weight_str = (case g4 of None \<Rightarrow> ascii ''1.0''
                             | Some s \<Rightarrow> if s = [] then ascii ''1.0'' else s)
           in case target_chat_id sel chat_spec msg of
                None \<Rightarrow> ((False, NoTargetChat, True), st)
              | Some cid \<Rightarrow>
                  (let initial_count =
                         (case py_float rnd weight_str of
                            Some v \<Rightarrow> max 0.01 (min 5.0 v)
                          | None \<Rightarrow> 1.0);
                       same = (\<lambda>e. chat_id e = cid \<and> situation e = situation' \<and> style e = style')
                   in case find same st of
                        Some obj \<Rightarrow>
                          (let obj' = obj\<lparr>count := min 5.0 (count obj + 0.1),
                                          last_active_time := now_ts,
                                          create_date :=
                                            (case create_date obj of
                                               None \<Rightarrow> Some now_ts | Some d \<Rightarrow> Some d)\<rparr>
                           in ((True, DuplicateBoosted (count obj'), True), save obj' st))
                      | None \<Rightarrow>
                          ((True, Added, True),
                           create situation' style' initial_count now_ts cid
                             (ascii ''expression'') now_ts st))))"

text \<open>
  \<open>DeleteExpressionCommand.execute\<close>. The lookup is by id alone; only
  DoesNotExist is caught around it.
\<close>

definition delete_execute ::
  "ucd \<Rightarrow> (pystr \<Rightarrow> exn + pystr option) \<Rightarrow> message \<Rightarrow>
   (pystr \<times> pystr option) option \<Rightarrow> store \<Rightarrow> (exn + result) \<times> store" where
  "delete_execute U sel msg m st =
     (case m of
        None \<Rightarrow> (Inr (False, UsageDel, True), st)
      | Some (id_str, g2) \<Rightarrow>
          (let chat_spec = (case g2 of None \<Rightarrow> [] | Some s \<Rightarrow> s)
           in case target_chat_id sel chat_spec msg of
                None \<Rightarrow> (Inr (False, NoTargetChat, True), st)
              | Some cid \<Rightarrow>
                  (case py_int U id_str of
                     None \<Rightarrow> (Inl ValueError, st)
                   | Some n \<Rightarrow>
                       (case get (\<lambda>e. expr_id e = n) st of
                          Inr expr \<Rightarrow> (Inr (True, Deleted id_str, True), delete_instance expr st)
                        | Inl _ \<Rightarrow> (Inr (False, IdNotFound id_str, True), st)))))"

text \<open>
  \<open>ModifyExpressionWeightCommand.execute\<close>. The lookup is by id and chat id.
  \<open>new_weight\<close> is the float sum \<open>expr.count + weight_change\<close>.
\<close>

definition modify_execute ::
  "ucd \<Rightarrow> (real \<Rightarrow> real) \<Rightarrow> (pystr \<Rightarrow> exn + pystr option) \<Rightarrow> real \<Rightarrow> message \<Rightarrow>
   (pystr \<times> pystr \<times> pystr option) option \<Rightarrow> store \<Rightarrow> (exn + result) \<times> store" where
  "modify_execute U rnd sel now_ts msg m st =
     (case m of
        None \<Rightarrow> (Inr (False, UsageModify, True), st)
      | Some (id_str, weight_change_str, g3) \<Rightarrow>
          (let chat_spec = (case g3 of None \<Rightarrow> [] | Some s \<Rightarrow> s)
           in case target_chat_id sel chat_spec msg of
                None \<Rightarrow> (Inr (False, NoTargetChat, True), st)
              | Some cid \<Rightarrow>
                  (case py_float rnd weight_change_str of
                     None \<Rightarrow> (Inr (False, WeightNotNumber, True), st)
                   | Some weight_change \<Rightarrow>
                       (case py_int U id_str of
                          None \<Rightarrow> (Inl ValueError, st)
                        | Some n \<Rightarrow>
                            (case get (\<lambda>e. expr_id e = n \<and> chat_id e = cid) st of
                               Inl _ \<Rightarrow> (Inr (False, NotFoundInChat, True), st)
                             | Inr expr \<Rightarrow>
                                 (let new_weight = rnd (count expr + weight_change) in
                                  if new_weight \<le> 0
                                  then (Inr (True, AutoDeleted new_weight, True),
                                        delete_instance expr st)
                                  else
                                    (let new_weight' = max 0.01 (min 5.0 new_weight);
                                         expr' = expr\<lparr>count := new_weight',
                                                       last_active_time := now_ts,
                                                       create_date :=
                                                         (case create_date expr of
                                                            None \<Rightarrow> Some now_ts
                                                          | Some d \<Rightarrow> Some d)\<rparr>
                                     in (Inr (True, WeightUpdated id_str new_weight', True),
                                         save expr' st))))))))"

section \<open>The id list of a message\<close>

text \<open>
  The block that \<open>LearnExpressionCommand.execute\<close> and
  \<open>AnalyzeMessageExpressionCommand.execute\<close> run on the \<open>selected_expressions\<close>
  field of a message. The loop runs inside \<open>try ... except Exception\<close>: when
  \<open>int()\<close> raises, the loop is left and the ids appended so far stay.
\<close>

fun collect_ids :: "ucd \<Rightarrow> pystr list \<Rightarrow> nat list \<Rightarrow> nat list" where
  "collect_ids U [] expression_ids = expression_ids"
| "collect_ids U (part # parts) expression_ids =
     (if isdigit U (strip part)
      then (case py_int U (strip part) of
              None \<Rightarrow> expression_ids
            | Some n \<Rightarrow> collect_ids U parts (expression_ids @ [n]))
      else collect_ids U parts expression_ids)"

definition parse_selected_expressions :: "ucd \<Rightarrow> pystr \<Rightarrow> nat list" where
  "parse_selected_expressions U selected_expressions_str =
     (if selected_expressions_str = [] then []
      else (let clean_str =
                  filter (\<lambda>c. c \<noteq> 32)
                    (strip_chars (\<lambda>c. c = 91 \<or> c = 93) selected_expressions_str)
            in collect_ids U (split_on 44 clean_str) []))"

text \<open>
  For stating what the block computes: the tokens it loops over, and the id a token
  contributes (\<open>None\<close> for a token that is not a digit string).
\<close>

definition id_tokens :: "pystr \<Rightarrow> pystr list" where
  "id_tokens s =
     split_on 44 (filter (\<lambda>c. c \<noteq> 32) (strip_chars (\<lambda>c. c = 91 \<or> c = 93) s))"

definition token_id :: "ucd \<Rightarrow> pystr \<Rightarrow> nat option" where
  "token_id U p = (if isdigit U (strip p) then py_int U (strip p) else None)"

text \<open>
  A token on which the loop ends: \<open>isdigit()\<close> holds and \<open>int()\<close> raises.
\<close>

definition int_raises :: "ucd \<Rightarrow> pystr \<Rightarrow> bool" where
  "int_raises U p \<longleftrightarrow> isdigit U (strip p) \<and> py_int U (strip p) = None"

section \<open>Responses of the language model\<close>

text \<open>
  A decoded JSON document, as \<open>json.loads\<close> returns it. An object is its list of
  members; \<open>map_of\<close> reads a key.
\<close>

datatype json =
    JNull
  | JBool bool
  | JInt int
  | JFloat real
  | JStr pystr
  | JArr "json list"
  | JObj "(pystr \<times> json) list"

text \<open>Python's truth value of a decoded document.\<close>

fun truthy :: "json \<Rightarrow> bool" where
  "truthy JNull = False"
| "truthy (JBool b) = b"
| "truthy (JInt i) = (i \<noteq> 0)"
| "truthy (JFloat r) = (r \<noteq> 0)"
| "truthy (JStr s) = (s \<noteq> [])"
| "truthy (JArr xs) = (xs \<noteq> [])"
| "truthy (JObj kvs) = (kvs \<noteq> [])"

text \<open>
  \<open>json.loads\<close> and \<open>json_repair.repair_json\<close> are libraries, and \<open>str()\<close> of a
  value that is not a string a built-in: parameters. \<open>Inl\<close> is a raised exception.
\<close>

record jsonlib =
  repair_json :: "pystr \<Rightarrow> exn + pystr"
  loads :: "pystr \<Rightarrow> exn + json"
  py_str :: "json \<Rightarrow> pystr"

text \<open>\<open>s.find(c)\<close>, \<open>s.rfind(c)\<close> (\<open>None\<close> for -1) and \<open>s[i:j]\<close> with \<open>i \<le> j\<close>.\<close>

definition py_find :: "nat \<Rightarrow> pystr \<Rightarrow> nat option" where
  "py_find c s = (if c \<in> set s then Some (length (takeWhile (\<lambda>x. x \<noteq> c) s)) else None)"

definition py_rfind :: "nat \<Rightarrow> pystr \<Rightarrow> nat option" where
  "py_rfind c s =
     (if c \<in> set s then Some (length s - 1 - length (takeWhile (\<lambda>x. x \<noteq> c) (rev s)))
      else None)"

definition slice :: "pystr \<Rightarrow> nat \<Rightarrow> nat \<Rightarrow> pystr" where
  "slice s i j = take (j - i) (drop i s)"

text \<open>
  The extraction that \<open>_parse_analysis_response\<close> and
  \<open>_parse_and_update_expressions_v2\<close> share: the text from the first opening brace
  to the last closing brace of the stripped response, then \<open>repair_json\<close> and
  \<open>json.loads\<close>, and \<open>json.loads\<close> on the text itself when either raised.
  \<open>None\<close> is the branch on which the caller returns its empty result.
\<close>

definition json_text :: "pystr \<Rightarrow> pystr option" where
  "json_text response =
     (let cleaned_response = strip response in
      case (py_find 123 cleaned_response, py_rfind 125 cleaned_response) of
        (Some start_idx, Some end_idx) \<Rightarrow>
          if end_idx \<le> start_idx then None
          else Some (slice cleaned_response start_idx (end_idx + 1))
      | _ \<Rightarrow> None)"

definition decode :: "jsonlib \<Rightarrow> pystr \<Rightarrow> json option" where
  "decode J text =
     (let direct = (case loads J text of Inr data \<Rightarrow> Some data | Inl _ \<Rightarrow> None) in
      case repair_json J text of
        Inl _ \<Rightarrow> direct
      | Inr fixed_json \<Rightarrow>
          (case loads J fixed_json of Inr data \<Rightarrow> Some data | Inl _ \<Rightarrow> direct))"

text \<open>
  The id of a response entry, as both loops read it: \<open>expr_id\<close> must be true and
  \<open>str(expr_id).isdigit()\<close> must hold, and then \<open>int(expr_id)\<close> is the id.
  \<open>str()\<close> of a positive int is its digits; of a negative int, a float, a bool, a
  list or an object it holds a sign, a point, a letter or a bracket, so \<open>isdigit\<close>
  fails. \<open>Inr None\<close>: the entry has no usable id. \<open>Inl ValueError\<close>: \<open>int()\<close>
  raised on a digit string that is not decimal.
\<close>

definition entry_id :: "ucd \<Rightarrow> json option \<Rightarrow> exn + nat option" where
  "entry_id U v =
     (case v of
        Some (JInt i) \<Rightarrow> if 0 < i then Inr (Some (nat i)) else Inr None
      | Some (JStr s) \<Rightarrow>
          if isdigit U s
          then (case py_int U s of None \<Rightarrow> Inl ValueError | Some n \<Rightarrow> Inr (Some n))
          else Inr None
      | _ \<Rightarrow> Inr None)"

text \<open>
  \<open>_parse_analysis_response\<close>. Everything runs inside one
  \<open>try ... except Exception: return []\<close>: an entry that is not an object
  (\<open>.get\<close> raises) or whose \<open>int()\<close> raises gives the empty list.
\<close>

fun used_ids_loop :: "ucd \<Rightarrow> json list \<Rightarrow> nat list \<Rightarrow> nat list option" where
  "used_ids_loop U [] used_ids = Some used_ids"
| "used_ids_loop U (expr_data # rest) used_ids =
     (case expr_data of
        JObj kvs \<Rightarrow>
          (case entry_id U (map_of kvs (ascii ''id'')) of
             Inl _ \<Rightarrow> None
           | Inr None \<Rightarrow> used_ids_loop U rest used_ids
           | Inr (Some n) \<Rightarrow> used_ids_loop U rest (used_ids @ [n]))
      | _ \<Rightarrow> None)"

definition parse_analysis_response :: "ucd \<Rightarrow> jsonlib \<Rightarrow> pystr \<Rightarrow> nat list" where
  "parse_analysis_response U J response =
     (case json_text response of
        None \<Rightarrow> []
      | Some text \<Rightarrow>
          (case decode J text of
             Some (JObj kvs) \<Rightarrow>
               (case map_of kvs (ascii ''used_expressions'') of
                  Some (JArr entries) \<Rightarrow>
                    (case used_ids_loop U entries [] of None \<Rightarrow> [] | Some used_ids \<Rightarrow> used_ids)
                | _ \<Rightarrow> [])
           | _ \<Rightarrow> []))"

text \<open>
  One entry of \<open>_parse_and_update_expressions_v2\<close>, an object with members
  \<open>kvs\<close>. \<open>None\<close>: the entry is skipped (\<open>continue\<close>). Otherwise the row is
  saved: with the new situation and the weight raised by 0.5 when \<open>new_situation\<close> is
  present, true and different from the stored situation, and with a new
  \<open>last_active_time\<close> in every case. A new situation that is not a string reaches
  the text column as its \<open>str()\<close>.
\<close>

definition update_entry ::
  "ucd \<Rightarrow> jsonlib \<Rightarrow> real \<Rightarrow> (pystr \<times> json) list \<Rightarrow> store \<Rightarrow> store option" where
  "update_entry U J now_ts kvs st =
     (case entry_id U (map_of kvs (ascii ''id'')) of
        Inl _ \<Rightarrow> None
      | Inr None \<Rightarrow> None
      | Inr (Some n) \<Rightarrow>
          (case get (\<lambda>e. expr_id e = n) st of
             Inl _ \<Rightarrow> None
           | Inr expr \<Rightarrow>
               (let old_situation = situation expr;
                    new_situation =
                      (case map_of kvs (ascii ''new_situation'') of
                         None \<Rightarrow> None
                       | Some v \<Rightarrow> if truthy v \<and> v \<noteq> JStr old_situation then Some v else None);
                    expr1 =
                      (case new_situation of
                         None \<Rightarrow> expr
                       | Some v \<Rightarrow>
                           expr\<lparr>situation := (case v of JStr s \<Rightarrow> s | _ \<Rightarrow> py_str J v)\<rparr>);
                    weight_change = (case new_situation of None \<Rightarrow> 0 | Some v \<Rightarrow> (0.5 :: real));
                    expr2 =
                      (if weight_change > 0
                       then expr1\<lparr>count := max 0.01 (min 5.0 (count expr1 + weight_change))\<rparr>
                       else expr1)
                in Some (save (expr2\<lparr>last_active_time := now_ts\<rparr>) st))))"

text \<open>
  The loop over \<open>data["expressions"]\<close>. \<open>updated_count\<close> is raised after every
  save. An entry that is not an object makes \<open>.get\<close> raise inside the entry's
  handler as well, so the function's outer handler returns 0; the rows saved before
  stay saved.
\<close>

fun update_loop ::
  "ucd \<Rightarrow> jsonlib \<Rightarrow> real \<Rightarrow> json list \<Rightarrow> nat \<Rightarrow> store \<Rightarrow> nat \<times> store" where
  "update_loop U J now_ts [] updated_count st = (updated_count, st)"
| "update_loop U J now_ts (expr_data # rest) updated_count st =
     (case expr_data of
        JObj kvs \<Rightarrow>
          (case update_entry U J now_ts kvs st of
             None \<Rightarrow> update_loop U J now_ts rest updated_count st
           | Some st' \<Rightarrow> update_loop U J now_ts rest (Suc updated_count) st')
      | _ \<Rightarrow> (0, st))"

text \<open>\<open>_parse_and_update_expressions_v2\<close>: the count it returns and the store.\<close>

definition parse_and_update_expressions_v2 ::
  "ucd \<Rightarrow> jsonlib \<Rightarrow> real \<Rightarrow> pystr \<Rightarrow> store \<Rightarrow> nat \<times> store" where
  "parse_and_update_expressions_v2 U J now_ts llm_response st =
     (case json_text llm_response of
        None \<Rightarrow> (0, st)
      | Some text \<Rightarrow>
          (case decode J text of
             Some (JObj kvs) \<Rightarrow>
               (case map_of kvs (ascii ''expressions'') of
                  Some (JArr entries) \<Rightarrow> update_loop U J now_ts entries 0 st
                | _ \<Rightarrow> (0, st))
           | _ \<Rightarrow> (0, st)))"

section \<open>The learning and the analysis command\<close>

text \<open>
  A chat message, as \<open>message_api\<close> returns it (a dict) and as the \<open>Messages\<close>
  table holds it; a field is \<open>None\<close> when the key is missing or holds None.
\<close>

record chat_message =
  user_id :: "pystr option"
  processed_plain_text :: "pystr option"
  selected_expressions :: "pystr option"

text \<open>One element of \<open>expressions_details\<close>.\<close>

record detail =
  d_id :: nat
  d_situation :: pystr
  d_style :: pystr
  d_count :: real

text \<open>
  The prompts are fixed templates around these values; a prompt is the values.
  \<open>LearningPrompt\<close> holds the guidance after the default has replaced an empty one:
  \<open>None\<close> is the default guidance.
\<close>

datatype prompt =
    AnalysisPromptForLearn pystr "detail list"
  | LearningPrompt pystr chat_message "detail list" "pystr option"
  | AnalysisPrompt pystr "detail list"

type_synonym model_config = pystr

text \<open>
  The host: the bot's account, \<open>message_api\<close> (the recent messages of a chat; the
  readable context around a message, which stands for the three calls that build
  it), the \<open>Messages\<close> table, and \<open>llm_api\<close>. \<open>generate_with_model\<close> returns
  \<open>(success, response, model_name)\<close>.
\<close>

record host =
  bot_id :: pystr
  get_recent_messages :: "pystr \<Rightarrow> chat_message list"
  context_text :: "pystr \<Rightarrow> chat_message \<Rightarrow> pystr"
  messages_get :: "pystr \<Rightarrow> chat_message option"
  get_available_models :: "(pystr \<times> model_config) list"
  generate_with_model :: "prompt \<Rightarrow> model_config \<Rightarrow> bool \<times> pystr \<times> pystr"

text \<open>
  The model choice all three calls repeat: \<open>utils\<close>, else \<open>chat\<close>, else the first
  model; \<open>None\<close> when there is no model.
\<close>

definition select_model :: "(pystr \<times> model_config) list \<Rightarrow> model_config option" where
  "select_model available_models =
     (if available_models = [] then None
      else (case map_of available_models (ascii ''utils'') of
              Some model_to_use \<Rightarrow> Some model_to_use
            | None \<Rightarrow>
                (case map_of available_models (ascii ''chat'') of
                   Some model_to_use \<Rightarrow> Some model_to_use
                 | None \<Rightarrow> Some (snd (hd available_models)))))"

text \<open>The details of the ids of a message; an id without a row gets a placeholder.\<close>

definition expressions_details :: "nat list \<Rightarrow> store \<Rightarrow> detail list" where
  "expressions_details expression_ids st =
     map (\<lambda>expr_id'.
            (case get (\<lambda>e. expr_id e = expr_id') st of
               Inr expr \<Rightarrow>
                 \<lparr>d_id = expr_id', d_situation = situation expr, d_style = style expr,
                  d_count = count expr\<rparr>
             | Inl _ \<Rightarrow>
                 \<lparr>d_id = expr_id', d_situation = [26410, 30693],
                  d_style = [34920, 36798, 26041, 24335, 19981, 23384, 22312], d_count = 0\<rparr>))
         expression_ids"

text \<open>
  The replies of the two commands. A text cut for display is the pair of its first
  100 (or 300) code points and whether more followed.
\<close>

datatype flow_reply =
    UsageLearn
  | UsageMsg
  | NoCurrentChat
  | NoBotMessage
  | EmptyBotMessage
  | NoLinkedExpressions "pystr \<times> bool"
  | NoModel
  | AnalysisFailed pystr
  | NothingUsed "pystr \<times> bool"
  | GenerationFailed pystr
  | LearnDone pystr nat
  | LearnNothing pystr "detail list"
  | MessageNotFound pystr
  | EmptyMessage pystr
  | AnalysisReport pystr "(json option \<times> detail option \<times> json option) list"
      "(json option \<times> json option) list" "json option"
  | RepairedReport pystr "json option list" "json option list" "json option"
  | MalformedResponse "pystr \<times> bool"
  | CommandError

type_synonym flow_result = "bool \<times> flow_reply \<times> bool"

definition cut :: "nat \<Rightarrow> pystr \<Rightarrow> pystr \<times> bool" where
  "cut n s = (take n s, n < length s)"

text \<open>
  \<open>LearnExpressionCommand.execute\<close>, in two parts. \<open>learn_apply\<close> is the part
  after the first response has been parsed: the second prompt, the second call of the
  model, and the update of the store.
\<close>

definition learn_apply ::
  "ucd \<Rightarrow> jsonlib \<Rightarrow> host \<Rightarrow> real \<Rightarrow> pystr \<Rightarrow> chat_message \<Rightarrow> detail list \<Rightarrow> pystr \<Rightarrow>
   nat list \<Rightarrow> store \<Rightarrow> flow_result \<times> store" where
  "learn_apply U J H now_ts cid bot_message details guidance used_expressions st =
     (let actual_used_expressions = filter (\<lambda>expr. d_id expr \<in> set used_expressions) details;
          prompt' =
            LearningPrompt (context_text H cid bot_message) bot_message actual_used_expressions
              (if strip guidance = [] then None else Some guidance)
      in case select_model (get_available_models H) of
           None \<Rightarrow> ((False, NoModel, True), st)
         | Some model_to_use \<Rightarrow>
             (case generate_with_model H prompt' model_to_use of
                (success, response, model_name) \<Rightarrow>
                  if \<not> success then ((False, GenerationFailed response, True), st)
                  else
                    (case parse_and_update_expressions_v2 U J now_ts response st of
                       (updated_count, st') \<Rightarrow>
                         if 0 < updated_count
                         then ((True, LearnDone model_name updated_count, True), st')
                         else ((True, LearnNothing model_name actual_used_expressions, True),
                               st'))))"

text \<open>
  The part of \<open>LearnExpressionCommand.execute\<close> on the bot's latest message.
\<close>

definition learn_analyse ::
  "ucd \<Rightarrow> jsonlib \<Rightarrow> host \<Rightarrow> real \<Rightarrow> pystr \<Rightarrow> chat_message \<Rightarrow> pystr \<Rightarrow> store \<Rightarrow>
   flow_result \<times> store" where
  "learn_analyse U J H now_ts cid bot_message guidance st =
     (let message_content =
            (case processed_plain_text bot_message of None \<Rightarrow> [] | Some t \<Rightarrow> t);
          expression_ids =
            (case selected_expressions bot_message of
               None \<Rightarrow> []
             | Some s \<Rightarrow> parse_selected_expressions U s)
      in if message_content = [] then ((False, EmptyBotMessage, True), st)
         else if expression_ids = []
         then ((True, NoLinkedExpressions (cut 100 message_content), True), st)
         else
           (let details = expressions_details expression_ids st in
            case select_model (get_available_models H) of
              None \<Rightarrow> ((False, NoModel, True), st)
            | Some model_to_use \<Rightarrow>
                (case generate_with_model H (AnalysisPromptForLearn message_content details)
                        model_to_use of
                   (success, analysis_response, model_name) \<Rightarrow>
                     if \<not> success then ((False, AnalysisFailed analysis_response, True), st)
                     else
                       (let used_expressions = parse_analysis_response U J analysis_response
                        in if used_expressions = []
                           then ((True, NothingUsed (cut 100 message_content), True), st)
                           else learn_apply U J H now_ts cid bot_message details guidance
                                  used_expressions st))))"

text \<open>
  The argument \<open>m\<close> is the match: its one group is the guidance, \<open>None\<close> when
  absent. The bot's message is the latest of the recent messages whose \<open>user_id\<close>
  is the bot's account.
\<close>

definition learn_execute ::
  "ucd \<Rightarrow> jsonlib \<Rightarrow> host \<Rightarrow> real \<Rightarrow> message \<Rightarrow> pystr option option \<Rightarrow> store \<Rightarrow>
   flow_result \<times> store" where
  "learn_execute U J H now_ts msg m st =
     (case m of
        None \<Rightarrow> ((False, UsageLearn, True), st)
      | Some g1 \<Rightarrow>
          (let guidance = (case g1 of None \<Rightarrow> [] | Some g \<Rightarrow> if g = [] then [] else strip g);
               chat_id' = (case chat_stream msg of None \<Rightarrow> None | Some cs \<Rightarrow> stream_id cs)
           in case chat_id' of
                None \<Rightarrow> ((False, NoCurrentChat, True), st)
              | Some cid \<Rightarrow>
                  if cid = [] then ((False, NoCurrentChat, True), st)
                  else
                    (case find (\<lambda>msg'. user_id msg' = Some (bot_id H))
                            (rev (get_recent_messages H cid)) of
                       None \<Rightarrow> ((False, NoBotMessage, True), st)
                     | Some bot_message \<Rightarrow>
                         learn_analyse U J H now_ts cid bot_message guidance st)))"

text \<open>
  The reply of \<open>AnalyzeMessageExpressionCommand.execute\<close> once the response is
  decoded. Iterating \<open>used_expressions\<close> and calling \<open>.get\<close> on its elements
  raises unless it is a list of objects; \<open>None\<close> is that exception.
\<close>

definition objects_of :: "json option \<Rightarrow> (pystr \<times> json) list list option" where
  "objects_of v =
     (case v of
        None \<Rightarrow> Some []
      | Some (JArr xs) \<Rightarrow>
          if list_all (\<lambda>x. case x of JObj kvs \<Rightarrow> True | _ \<Rightarrow> False) xs
          then Some (map (\<lambda>x. case x of JObj kvs \<Rightarrow> kvs | _ \<Rightarrow> []) xs)
          else None
      | Some w \<Rightarrow> if truthy w then None else Some [])"

text \<open>\<open>e['id'] == expr_id\<close>, an int compared with a decoded value.\<close>

definition id_equals :: "nat \<Rightarrow> json option \<Rightarrow> bool" where
  "id_equals n v =
     (case v of
        Some (JInt i) \<Rightarrow> i = int n
      | Some (JFloat r) \<Rightarrow> r = real n
      | Some (JBool b) \<Rightarrow> (if b then n = 1 else n = 0)
      | _ \<Rightarrow> False)"

definition analysis_report ::
  "pystr \<Rightarrow> detail list \<Rightarrow> json \<Rightarrow> flow_reply option" where
  "analysis_report message_id details analysis_result =
     (case analysis_result of
        JObj kvs \<Rightarrow>
          (case (objects_of (map_of kvs (ascii ''used_expressions'')),
                 objects_of (map_of kvs (ascii ''unused_expressions''))) of
             (Some used_expressions, Some unused_expressions) \<Rightarrow>
               Some (AnalysisReport message_id
                 (map (\<lambda>expr. (map_of expr (ascii ''id''),
                               find (\<lambda>e. id_equals (d_id e) (map_of expr (ascii ''id''))) details,
                               map_of expr (ascii ''reason'')))
                    used_expressions)
                 (map (\<lambda>expr. (map_of expr (ascii ''id''), map_of expr (ascii ''reason'')))
                    unused_expressions)
                 (map_of kvs (ascii ''summary'')))
           | _ \<Rightarrow> None)
      | _ \<Rightarrow> None)"

definition repaired_report :: "pystr \<Rightarrow> json \<Rightarrow> flow_reply option" where
  "repaired_report message_id analysis_result =
     (case analysis_result of
        JObj kvs \<Rightarrow>
          (case (objects_of (map_of kvs (ascii ''used_expressions'')),
                 objects_of (map_of kvs (ascii ''unused_expressions''))) of
             (Some used_expressions, Some unused_expressions) \<Rightarrow>
               Some (RepairedReport message_id
                 (map (\<lambda>e. map_of e (ascii ''id'')) used_expressions)
                 (map (\<lambda>e. map_of e (ascii ''id'')) unused_expressions)
                 (map_of kvs (ascii ''summary'')))
           | _ \<Rightarrow> None)
      | _ \<Rightarrow> None)"

text \<open>
  The end of \<open>AnalyzeMessageExpressionCommand.execute\<close>, from the response on.
  The response is decoded with \<open>json.loads\<close> on the whole response first; only when
  that raises is \<open>repair_json\<close> tried, again on the whole response, and when the
  repair branch raises the command fails with the first 300 characters of the
  response. An exception outside the repair branch reaches the command's outer
  handler (\<open>CommandError\<close>).
\<close>

definition analyze_reply :: "jsonlib \<Rightarrow> pystr \<Rightarrow> detail list \<Rightarrow> pystr \<Rightarrow> flow_result" where
  "analyze_reply J message_id details response =
     (case loads J response of
        Inr analysis_result \<Rightarrow>
          (case analysis_report message_id details analysis_result of
             Some r \<Rightarrow> (True, r, True)
           | None \<Rightarrow> (False, CommandError, True))
      | Inl _ \<Rightarrow>
          (case repair_json J response of
             Inl _ \<Rightarrow> (False, MalformedResponse (cut 300 response), True)
           | Inr fixed_response \<Rightarrow>
               (case loads J fixed_response of
                  Inl _ \<Rightarrow> (False, MalformedResponse (cut 300 response), True)
                | Inr analysis_result \<Rightarrow>
                    (case repaired_report message_id analysis_result of
                       Some r \<Rightarrow> (True, r, True)
                     | None \<Rightarrow> (False, MalformedResponse (cut 300 response), True)))))"

text \<open>
  \<open>AnalyzeMessageExpressionCommand.execute\<close>. The argument \<open>m\<close> is the match;
  its one group is the message id.
\<close>

definition analyze_execute ::
  "ucd \<Rightarrow> jsonlib \<Rightarrow> host \<Rightarrow> pystr option \<Rightarrow> store \<Rightarrow> flow_result \<times> store" where
  "analyze_execute U J H m st =
     (case m of
        None \<Rightarrow> ((False, UsageMsg, True), st)
      | Some g1 \<Rightarrow>
          (let message_id = strip g1 in
           case messages_get H message_id of
             None \<Rightarrow> ((False, MessageNotFound message_id, True), st)
           | Some message_record \<Rightarrow>
               (let message_content =
                      (case processed_plain_text message_record of None \<Rightarrow> [] | Some t \<Rightarrow> t);
                    expression_ids =
                      (case selected_expressions message_record of
                         None \<Rightarrow> []
                       | Some s \<Rightarrow> parse_selected_expressions U s)
                in if message_content = [] then ((False, EmptyMessage message_id, True), st)
                   else if expression_ids = []
                   then ((True, NoLinkedExpressions (cut 100 message_content), True), st)
                   else
                     (let details = expressions_details expression_ids st in
                      case select_model (get_available_models H) of
                        None \<Rightarrow> ((False, NoModel, True), st)
                      | Some model_to_use \<Rightarrow>
                          (case generate_with_model H (AnalysisPrompt message_content details)
                                  model_to_use of
                             (success, response, model_name) \<Rightarrow>
                               if \<not> success then ((False, AnalysisFailed response, True), st)
                               else (analyze_reply J message_id details response, st))))))"

section \<open>The command patterns\<close>

text \<open>
  A character class of a pattern: a literal, a letter under \<open>re.IGNORECASE\<close> (its
  two cases, and the further letters that \<open>re\<close> equates with it: U+0130 and U+0131
  with \<open>i\<close>, U+017F with \<open>s\<close>, U+212A with \<open>k\<close>), \<open>\s\<close>, \<open>\S\<close>,
  \<open>\d\<close>, \<open>[0-9]\<close>, the dot (no flag lets it match a newline), and a bracketed
  set.
\<close>

datatype cset =
    Lit nat
  | NoCase nat
  | Space
  | NotSpace
  | Digit
  | AsciiDigit
  | AnyChar
  | OneOf "nat list"

fun in_cset :: "ucd \<Rightarrow> cset \<Rightarrow> nat \<Rightarrow> bool" where
  "in_cset U (Lit l) c = (c = l)"
| "in_cset U (NoCase l) c =
     (c = l \<or> (97 \<le> l \<and> l \<le> 122 \<and> c + 32 = l) \<or>
      (l = 105 \<and> (c = 304 \<or> c = 305)) \<or> (l = 115 \<and> c = 383) \<or> (l = 107 \<and> c = 8490))"
| "in_cset U Space c = isspace_c c"
| "in_cset U NotSpace c = (\<not> isspace_c c)"
| "in_cset U Digit c = is_decimal U c"
| "in_cset U AsciiDigit c = (48 \<le> c \<and> c \<le> 57)"
| "in_cset U AnyChar c = (c \<noteq> 10)"
| "in_cset U (OneOf cs) c = (c \<in> set cs)"

text \<open>
  The patterns of the commands are built from one character, one or more characters
  of a class (greedy when the flag is true, else lazy, as in \<open>.+?\<close>), sequence,
  alternative, the optional \<open>(...)?\<close> and the numbered capturing group.
\<close>

datatype rx =
    Eps
  | Chars cset
  | Many1 bool cset
  | Seq rx rx
  | Alt rx rx
  | Opt rx
  | Group nat rx

text \<open>
  The texts left after one, two, ... leading characters that satisfy \<open>p\<close>.
\<close>

fun spans :: "(nat \<Rightarrow> bool) \<Rightarrow> pystr \<Rightarrow> pystr list" where
  "spans p [] = []"
| "spans p (c # t) = (if p c then t # spans p t else [])"

type_synonym caps = "nat \<Rightarrow> pystr option"

text \<open>
  Matching as \<open>re\<close> does it, by backtracking: \<open>run\<close> lists, in the order in
  which the matcher tries them, the ways a pattern can match at the start of a text,
  each as the groups captured and the text that is left. A greedy repetition tries
  the longest span first, a lazy one the shortest; an alternative tries its left
  branch first; an optional part is tried before it is skipped.
\<close>

fun run :: "ucd \<Rightarrow> rx \<Rightarrow> caps \<times> pystr \<Rightarrow> (caps \<times> pystr) list" where
  "run U Eps gs = [gs]"
| "run U (Chars k) (g, s) =
     (case s of [] \<Rightarrow> [] | c # t \<Rightarrow> if in_cset U k c then [(g, t)] else [])"
| "run U (Many1 greedy k) (g, s) =
     map (Pair g) (if greedy then rev (spans (in_cset U k) s) else spans (in_cset U k) s)"
| "run U (Seq a b) gs = concat (map (run U b) (run U a gs))"
| "run U (Alt a b) gs = run U a gs @ run U b gs"
| "run U (Opt a) gs = run U a gs @ [gs]"
| "run U (Group n a) (g, s) =
     map (\<lambda>(g', s'). (g'(n \<mapsto> take (length s - length s') s), s')) (run U a (g, s))"

text \<open>
  \<open>re.match(pattern, text)\<close> for a pattern that ends in \<open>$\<close>: the first way to
  match that leaves nothing, or only a final newline. \<open>None\<close>: no match.
\<close>

definition re_match :: "ucd \<Rightarrow> rx \<Rightarrow> pystr \<Rightarrow> caps option" where
  "re_match U pattern text =
     (case filter (\<lambda>(g, rest). rest = [] \<or> rest = [10]) (run U pattern (Map.empty, text)) of
        [] \<Rightarrow> None
      | (g, rest) # _ \<Rightarrow> Some g)"

text \<open>A word of the pattern, matched letter by letter without regard to case.\<close>

definition lits :: "pystr \<Rightarrow> rx" where
  "lits s = foldr (\<lambda>c r. Seq (Chars (NoCase c)) r) s Eps"

text \<open>\<open>^/(?:expr|express|\<close>U+8868 U+8FBE\<open>)\<close>, the start of every pattern.\<close>

definition command_prefix :: rx where
  "command_prefix =
     Seq (Chars (Lit 47))
       (Alt (lits (ascii ''expr'')) (Alt (lits (ascii ''express'')) (lits [34920, 36798])))"

text \<open>\<open>(?:\s+in\s+(\S+))?\<close> with the group number \<open>n\<close>.\<close>

definition in_chat :: "nat \<Rightarrow> rx" where
  "in_chat n =
     Opt (Seq (Many1 True Space) (Seq (lits (ascii ''in'')) (Seq (Many1 True Space)
       (Group n (Many1 True NotSpace)))))"

text \<open>\<open>[0-9]+(?:\.[0-9]+)?\<close>\<close>

definition number :: rx where
  "number = Seq (Many1 True AsciiDigit) (Opt (Seq (Chars (Lit 46)) (Many1 True AsciiDigit)))"

text \<open>The start \<open>^/(?:expr|...)\s+(\d+)\s+\<close> followed by \<open>r\<close>.\<close>

definition id_and :: "rx \<Rightarrow> rx" where
  "id_and r =
     Seq command_prefix (Seq (Many1 True Space) (Seq (Group 1 (Many1 True Digit))
       (Seq (Many1 True Space) r)))"

text \<open>
  \<open>ModifyExpressionWeightCommand.command_pattern\<close>:
  \<open>^/(?:expr|express|..)\s+(\d+)\s+([+-][0-9]+(?:\.[0-9]+)?)(?:\s+in\s+(\S+))?$\<close>
\<close>

definition modify_pattern :: rx where
  "modify_pattern = id_and (Seq (Group 2 (Seq (Chars (OneOf [43, 45])) number)) (in_chat 3))"

text \<open>
  The same line with an unsigned number for the delta, the notation of the weight in
  \<open>AddExpressionCommand.command_pattern\<close> (\<open>w=([0-9]+(?:\.[0-9]+)?)\<close>). It is no
  pattern of the plugin: it describes the lines whose delta token is unsigned.
\<close>

definition unsigned_pattern :: rx where
  "unsigned_pattern = id_and (Seq (Group 2 number) (in_chat 3))"

text \<open>The group numbers of a pattern.\<close>

fun gnames :: "rx \<Rightarrow> nat set" where
  "gnames Eps = {}"
| "gnames (Chars k) = {}"
| "gnames (Many1 b k) = {}"
| "gnames (Seq a b) = gnames a \<union> gnames b"
| "gnames (Alt a b) = gnames a \<union> gnames b"
| "gnames (Opt a) = gnames a"
| "gnames (Group n a) = insert n (gnames a)"

text \<open>
  \<open>ModifyExpressionWeightCommand.execute\<close> on the text of the message
  (\<open>raw_message or ""\<close>): the groups 1 and 2 take part in every match.
\<close>

definition text_of :: "message \<Rightarrow> pystr" where
  "text_of msg = (case raw_message msg of None \<Rightarrow> [] | Some t \<Rightarrow> t)"

definition modify_command ::
  "ucd \<Rightarrow> (real \<Rightarrow> real) \<Rightarrow> (pystr \<Rightarrow> exn + pystr option) \<Rightarrow> real \<Rightarrow> message \<Rightarrow>
   store \<Rightarrow>
   (exn + result) \<times> store" where
  "modify_command U rnd sel now_ts msg st =
     modify_execute U rnd sel now_ts msg
       (map_option
          (\<lambda>g. (case g 1 of None \<Rightarrow> [] | Some s \<Rightarrow> s, case g 2 of None \<Rightarrow> [] | Some s \<Rightarrow> s, g 3))
          (re_match U modify_pattern (text_of msg)))
       st"

section \<open>Sample data\<close>

text \<open>
  The rounding of a binary arithmetic with ten fraction bits (0.1 is 51/512 there),
  a small character database (the fullwidth digits; the superscript digits of
  Latin-1), a stand-in for the host's selector, a message from chat \<open>chatA\<close>, and
  a store of two rows.
\<close>

definition rnd_sample :: "real \<Rightarrow> real" where
  "rnd_sample x = of_int (round (x * 1024)) / 1024"

definition ucd_sample :: ucd where
  "ucd_sample =
     \<lparr>nd_value = (\<lambda>c. if 65296 \<le> c \<and> c \<le> 65305 then Some (c - 65296) else None),
      digit_other = (\<lambda>c. c = 178 \<or> c = 179 \<or> c = 185)\<rparr>"

definition sel_sample :: "pystr \<Rightarrow> exn + pystr option" where
  "sel_sample s =
     (if length (split_on 58 s) = 3 then Inr (Some (ascii ''0123456789abcdef0123456789abcdef''))
      else Inr None)"

definition msg_sample :: message where
  "msg_sample = \<lparr>raw_message = None, chat_stream = Some \<lparr>stream_id = Some (ascii ''chatA'')\<rparr>\<rparr>"

definition row5 :: expression where
  "row5 = \<lparr>expr_id = 5, chat_id = ascii ''chatA'', situation = ascii ''sorry'',
           style = ascii ''my bad'', count = 1.0, last_active_time = 100,
           create_date = Some 100, etype = ascii ''expression''\<rparr>"

definition row7 :: expression where
  "row7 = \<lparr>expr_id = 7, chat_id = ascii ''chatB'', situation = ascii ''wow'',
           style = ascii ''no way'', count = 5.0, last_active_time = 150,
           create_date = None, etype = ascii ''expression''\<rparr>"

definition store_sample :: store where
  "store_sample = [row5, row7]"

text \<open>The invariant of the data model: every stored weight lies in [0.01, 5.0].\<close>

definition weights_ok :: "store \<Rightarrow> bool" where
  "weights_ok st = list_all (\<lambda>e. 0.01 \<le> count e \<and> count e \<le> 5.0) st"

text \<open>
  Two responses of the model with the documents they decode to, and a stand-in for
  the JSON libraries that knows these texts: \<open>repair_json\<close> returns its argument,
  \<open>json.loads\<close> raises on any other text.
\<close>

definition resp_same :: pystr where
  \<open>resp_same = ascii ''{"expressions": [{"id": 5, "new_situation": "sorry"}]}''\<close>

definition doc_same :: json where
  "doc_same = JObj [(ascii ''expressions'',
      JArr [JObj [(ascii ''id'', JInt 5), (ascii ''new_situation'', JStr (ascii ''sorry''))]])]"

definition resp_new :: pystr where
  \<open>resp_new = ascii ''Sure! {"expressions": [{"id": 5, "new_situation": "apology"}]} Thanks''\<close>

definition text_new :: pystr where
  \<open>text_new = ascii ''{"expressions": [{"id": 5, "new_situation": "apology"}]}''\<close>

definition doc_new :: json where
  "doc_new = JObj [(ascii ''expressions'',
      JArr [JObj [(ascii ''id'', JInt 5), (ascii ''new_situation'', JStr (ascii ''apology''))]])]"

definition jsonlib_sample :: jsonlib where
  "jsonlib_sample =
     \<lparr>repair_json = (\<lambda>s. Inr s),
      loads = (\<lambda>s. case map_of [(resp_same, doc_same), (text_new, doc_new)] s of
                      Some d \<Rightarrow> Inr d | None \<Rightarrow> Inl ValueError),
      py_str = (\<lambda>v. [])\<rparr>"



section \<open>Properties of the store operations\<close>

lemma find_id_mem:
  "find (\<lambda>e. expr_id e = n \<and> P e) st = Some x \<Longrightarrow> x \<in> set st \<and> expr_id x = n \<and> P x"
  by (induction st) (auto split: if_splits)

lemma find_save_same:
  "x \<in> set st \<Longrightarrow> expr_id obj = expr_id x \<Longrightarrow>
   find (\<lambda>e. expr_id e = expr_id x) (save obj st) = Some obj"
  by (induction st) (auto simp: save_def)

lemma save_others:
  "filter (\<lambda>e. expr_id e \<noteq> expr_id obj) (save obj st) =
   filter (\<lambda>e. expr_id e \<noteq> expr_id obj) st"
  by (induction st) (auto simp: save_def)

lemma length_save: "length (save obj st) = length st"
  by (simp add: save_def)

lemma find_mem: "find P st = Some x \<Longrightarrow> x \<in> set st \<and> P x"
  by (induction st) (auto split: if_splits)




lemma int7: "py_int ucd_sample (ascii ''7'') = Some 7"
  by (simp add: py_int_def is_decimal_def decimal_value_def)

lemma tc_sample: "target_chat_id sel_sample [] msg_sample = Some (ascii ''chatA'')"
  by (simp add: target_chat_id_def parse_stream_config_to_chat_id_def msg_sample_def)

lemma float_m3: "py_float rnd_sample (ascii ''-3.0'') = Some (-3)"
  by (simp add: py_float_def decimal_of_def unsigned_decimal_def ascii_digits_def digits_val_def
        rnd_sample_def round_def)

lemma float_p05: "py_float rnd_sample (ascii ''+0.5'') = Some (1/2)"
  by (simp add: py_float_def decimal_of_def unsigned_decimal_def ascii_digits_def digits_val_def
        rnd_sample_def round_def)

lemma float_m01: "py_float rnd_sample (ascii ''-0.1'') = Some (- (51/512))"
  by (simp add: py_float_def decimal_of_def unsigned_decimal_def ascii_digits_def digits_val_def
        rnd_sample_def round_def)

lemma int5: "py_int ucd_sample (ascii ''5'') = Some 5"
  by (simp add: py_int_def is_decimal_def decimal_value_def)

section \<open>The weight adjustment\<close>

text \<open>
  Claim C2. The adjustment command has resolved the chat \<open>cid\<close>, read the delta
  \<open>d\<close> (the float of the delta token) and the id \<open>n\<close>, and found the row
  \<open>expr\<close> of that id and chat. The sum is the float sum of the stored weight and
  the delta, \<open>rnd (count expr + d)\<close>, for every rounding \<open>rnd\<close>. If the sum is at
  most 0 the command succeeds with the deletion message and the store loses the row of
  id \<open>n\<close>. If the sum is above 0 the command succeeds with the update message, the
  store keeps its length and its other rows, and the row of id \<open>n\<close> has the weight
  \<open>max 0.01 (min 5.0 sum)\<close> and its old chat, situation and style.
\<close>

theorem modify_apply_delta:
  assumes tc: "target_chat_id sel (case g3 of None \<Rightarrow> [] | Some s \<Rightarrow> s) msg = Some cid"
    and fl: "py_float rnd ws = Some d"
    and idn: "py_int U ids = Some n"
    and ex: "find (\<lambda>e. expr_id e = n \<and> chat_id e = cid) st = Some expr"
  shows "(rnd (count expr + d) \<le> 0 \<longrightarrow>
            modify_execute U rnd sel now_ts msg (Some (ids, ws, g3)) st =
              (Inr (True, AutoDeleted (rnd (count expr + d)), True),
               filter (\<lambda>e. expr_id e \<noteq> n) st)) \<and>
         (0 < rnd (count expr + d) \<longrightarrow>
            (\<exists>st'. modify_execute U rnd sel now_ts msg (Some (ids, ws, g3)) st =
               (Inr (True, WeightUpdated ids (max 0.01 (min 5.0 (rnd (count expr + d)))), True),
                st') \<and>
              length st' = length st \<and>
              filter (\<lambda>e. expr_id e \<noteq> n) st' = filter (\<lambda>e. expr_id e \<noteq> n) st \<and>
              (\<exists>e'. find (\<lambda>e. expr_id e = n) st' = Some e' \<and>
                    count e' = max 0.01 (min 5.0 (rnd (count expr + d))) \<and>
                    chat_id e' = chat_id expr \<and> situation e' = situation expr \<and>
                    style e' = style expr)))"
proof -
  from find_id_mem[OF ex] have mem: "expr \<in> set st" and eid: "expr_id expr = n" by auto
  define w where "w = rnd (count expr + d)"
  show ?thesis
    unfolding w_def[symmetric]
  proof (intro conjI impI)
    assume "w \<le> 0"
    then show "modify_execute U rnd sel now_ts msg (Some (ids, ws, g3)) st =
              (Inr (True, AutoDeleted w, True), filter (\<lambda>e. expr_id e \<noteq> n) st)"
      using tc fl idn ex eid
      by (simp add: modify_execute_def get_def delete_instance_def w_def)
  next
    assume pos: "0 < w"
    define e' where "e' = expr\<lparr>count := max 0.01 (min 5.0 w),
                                 last_active_time := now_ts,
                                 create_date := (case create_date expr of
                                                   None \<Rightarrow> Some now_ts | Some d \<Rightarrow> Some d)\<rparr>"
    have id': "expr_id e' = n" using eid by (simp add: e'_def)
    have nle: "\<not> rnd (count expr + d) \<le> 0" using pos by (simp add: w_def)
    have run: "modify_execute U rnd sel now_ts msg (Some (ids, ws, g3)) st =
               (Inr (True, WeightUpdated ids (max 0.01 (min 5.0 w)), True), save e' st)"
      using tc fl idn ex nle by (simp add: modify_execute_def get_def e'_def Let_def w_def)
    have f: "find (\<lambda>e. expr_id e = n) (save e' st) = Some e'"
      using find_save_same[OF mem, of e'] id' eid by simp
    have o: "filter (\<lambda>e. expr_id e \<noteq> n) (save e' st) = filter (\<lambda>e. expr_id e \<noteq> n) st"
      using save_others[of e' st] id' by simp
    have props: "count e' = max 0.01 (min 5.0 w) \<and> chat_id e' = chat_id expr \<and>
                 situation e' = situation expr \<and> style e' = style expr"
      by (simp add: e'_def)
    show "\<exists>st'. modify_execute U rnd sel now_ts msg (Some (ids, ws, g3)) st =
               (Inr (True, WeightUpdated ids (max 0.01 (min 5.0 w)), True), st') \<and>
              length st' = length st \<and>
              filter (\<lambda>e. expr_id e \<noteq> n) st' = filter (\<lambda>e. expr_id e \<noteq> n) st \<and>
              (\<exists>e'. find (\<lambda>e. expr_id e = n) st' = Some e' \<and>
                    count e' = max 0.01 (min 5.0 w) \<and>
                    chat_id e' = chat_id expr \<and> situation e' = situation expr \<and>
                    style e' = style expr)"
      using run f o props length_save[of e' st] by blast
  qed
qed

text \<open>
  The scenario of the specification: the row of id 5 has weight 1.0; a delta of -3.0
  deletes it, a delta of +0.5 sets it to 1.5. And a case in which rounding decides: a
  row whose weight is the float of 0.1 takes the delta -0.1; the float sum is 0 and
  the row is deleted.
\<close>

theorem modify_apply_delta_witness:
  "modify_execute ucd_sample rnd_sample sel_sample 200 msg_sample
     (Some (ascii ''5'', ascii ''-3.0'', None)) store_sample
     = (Inr (True, AutoDeleted (-2), True), [row7])
   \<and> fst (modify_execute ucd_sample rnd_sample sel_sample 200 msg_sample
            (Some (ascii ''5'', ascii ''+0.5'', None)) store_sample)
       = Inr (True, WeightUpdated (ascii ''5'') 1.5, True)
   \<and> modify_execute ucd_sample rnd_sample sel_sample 200 msg_sample
        (Some (ascii ''5'', ascii ''-0.1'', None)) [row5\<lparr>count := rnd_sample 0.1\<rparr>]
       = (Inr (True, AutoDeleted 0, True), [])"
proof -
  have f: "find (\<lambda>e. expr_id e = 5 \<and> chat_id e = ascii ''chatA'') store_sample = Some row5"
    by (simp add: store_sample_def row5_def)
  have tc: "target_chat_id sel_sample (case None of None \<Rightarrow> [] | Some s \<Rightarrow> s) msg_sample
              = Some (ascii ''chatA'')"
    using tc_sample by simp
  have c5: "count row5 = 1" by (simp add: row5_def)
  have r3: "rnd_sample (1 + - 3) = -2" "rnd_sample (1 + 1 / 2) = 3 / 2"
    by (simp_all add: rnd_sample_def round_def)
  have a: "modify_execute ucd_sample rnd_sample sel_sample 200 msg_sample
             (Some (ascii ''5'', ascii ''-3.0'', None)) store_sample
           = (Inr (True, AutoDeleted (-2), True), [row7])"
    using modify_apply_delta[OF tc float_m3 int5 f, of 200] c5 r3
    by (simp add: store_sample_def row5_def row7_def)
  have b: "fst (modify_execute ucd_sample rnd_sample sel_sample 200 msg_sample
                  (Some (ascii ''5'', ascii ''+0.5'', None)) store_sample)
           = Inr (True, WeightUpdated (ascii ''5'') 1.5, True)"
    using modify_apply_delta[OF tc float_p05 int5 f, of 200] c5 r3
    by auto
  let ?st = "[row5\<lparr>count := rnd_sample 0.1\<rparr>]"
  have f': "find (\<lambda>e. expr_id e = 5 \<and> chat_id e = ascii ''chatA'') ?st
            = Some (row5\<lparr>count := rnd_sample 0.1\<rparr>)"
    by (simp add: row5_def)
  have r0: "rnd_sample (rnd_sample 0.1 + - (51 / 512)) = 0"
    by (simp add: rnd_sample_def round_def)
  have c: "modify_execute ucd_sample rnd_sample sel_sample 200 msg_sample
             (Some (ascii ''5'', ascii ''-0.1'', None)) ?st
           = (Inr (True, AutoDeleted 0, True), [])"
    using modify_apply_delta[OF tc float_m01 int5 f', of 200] r0
    by (simp add: row5_def)
  show ?thesis using a b c by simp
qed

section \<open>Adding an expression that exists\<close>



section \<open>Deleting by id\<close>

text \<open>
  Claim C10. A chat \<open>cid\<close> has been resolved, the id group reads \<open>n\<close>, and the
  row \<open>expr\<close> is the row of id \<open>n\<close> (ids are unique). The delete command removes
  the row and succeeds whatever the chat of the row is. The adjustment command with
  the same id and chat reference replies "not found" and leaves the store as it is
  when the chat of the row is not \<open>cid\<close>, and succeeds when it is. Without a
  resolved chat the delete command replies "no target chat" and deletes nothing.
\<close>

theorem delete_by_id_alone:
  assumes tc: "target_chat_id sel (case g of None \<Rightarrow> [] | Some s \<Rightarrow> s) msg = Some cid"
    and idn: "py_int U ids = Some n"
    and fl: "py_float rnd ws = Some d"
    and ex: "find (\<lambda>e. expr_id e = n) st = Some expr"
    and dist: "distinct (map expr_id st)"
  shows "delete_execute U sel msg (Some (ids, g)) st =
           (Inr (True, Deleted ids, True), filter (\<lambda>e. expr_id e \<noteq> n) st) \<and>
         (chat_id expr \<noteq> cid \<longrightarrow>
            modify_execute U rnd sel now_ts msg (Some (ids, ws, g)) st =
              (Inr (False, NotFoundInChat, True), st)) \<and>
         (chat_id expr = cid \<longrightarrow>
            (\<exists>r st'. modify_execute U rnd sel now_ts msg (Some (ids, ws, g)) st =
               (Inr (True, r, True), st'))) \<and>
         (target_chat_id sel (case g of None \<Rightarrow> [] | Some s \<Rightarrow> s) msg' = None \<longrightarrow>
            delete_execute U sel msg' (Some (ids, g)) st = (Inr (False, NoTargetChat, True), st))"
proof -
  from find_mem[OF ex] have mem: "expr \<in> set st" and eid: "expr_id expr = n" by auto
  have del: "delete_execute U sel msg (Some (ids, g)) st =
           (Inr (True, Deleted ids, True), filter (\<lambda>e. expr_id e \<noteq> n) st)"
    using tc idn ex eid by (simp add: delete_execute_def get_def delete_instance_def)
  have uniq: "\<And>y. y \<in> set st \<Longrightarrow> expr_id y = n \<Longrightarrow> y = expr"
    using dist mem eid by (induction st) (auto simp: image_iff)
  have nf: "chat_id expr \<noteq> cid \<Longrightarrow> find (\<lambda>e. expr_id e = n \<and> chat_id e = cid) st = None"
    using uniq by (auto simp: find_None_iff)
  have yes: "chat_id expr = cid \<Longrightarrow> find (\<lambda>e. expr_id e = n \<and> chat_id e = cid) st \<noteq> None"
    using mem eid by (auto simp: find_None_iff)
  have m1: "chat_id expr \<noteq> cid \<Longrightarrow> modify_execute U rnd sel now_ts msg (Some (ids, ws, g)) st =
              (Inr (False, NotFoundInChat, True), st)"
    using tc idn fl nf by (simp add: modify_execute_def get_def)
  have m2: "chat_id expr = cid \<Longrightarrow>
            \<exists>r st'. modify_execute U rnd sel now_ts msg (Some (ids, ws, g)) st =
               (Inr (True, r, True), st')"
    using tc idn fl yes by (auto simp: modify_execute_def get_def Let_def split: option.splits)
  have nt: "target_chat_id sel (case g of None \<Rightarrow> [] | Some s \<Rightarrow> s) msg' = None \<Longrightarrow>
            delete_execute U sel msg' (Some (ids, g)) st = (Inr (False, NoTargetChat, True), st)"
    by (simp add: delete_execute_def)
  show ?thesis using del m1 m2 nt by blast
qed

text \<open>
  From chat \<open>chatA\<close>, the row of id 7 of chat \<open>chatB\<close> is deleted by the delete
  command and is not found by the adjustment command.
\<close>

theorem delete_by_id_alone_witness:
  "delete_execute ucd_sample sel_sample msg_sample (Some (ascii ''7'', None)) store_sample
     = (Inr (True, Deleted (ascii ''7''), True), [row5]) \<and>
   modify_execute ucd_sample rnd_sample sel_sample 200 msg_sample (Some (ascii ''7'', ascii ''+0.5'', None))
     store_sample = (Inr (False, NotFoundInChat, True), store_sample)"
proof -
  have tc: "target_chat_id sel_sample (case None of None \<Rightarrow> [] | Some s \<Rightarrow> s) msg_sample
              = Some (ascii ''chatA'')"
    using tc_sample by simp
  have f: "find (\<lambda>e. expr_id e = 7) store_sample = Some row7"
    by (simp add: store_sample_def row5_def row7_def)
  have d: "distinct (map expr_id store_sample)"
    by (simp add: store_sample_def row5_def row7_def)
  have c: "chat_id row7 \<noteq> ascii ''chatA''" by (simp add: row7_def)
  have r: "filter (\<lambda>e. expr_id e \<noteq> 7) store_sample = [row5]"
    by (simp add: store_sample_def row5_def row7_def)
  show ?thesis
    using delete_by_id_alone[OF tc int7 float_p05 f d, of 200] c r by simp
qed

section \<open>The weight invariant\<close>

lemma ok_save:
  "weights_ok st \<Longrightarrow> 0.01 \<le> count obj \<Longrightarrow> count obj \<le> 5.0 \<Longrightarrow> weights_ok (save obj st)"
  by (induction st) (auto simp: weights_ok_def save_def)

lemma ok_delete: "weights_ok st \<Longrightarrow> weights_ok (delete_instance obj st)"
  by (induction st) (auto simp: weights_ok_def delete_instance_def)

lemma ok_create:
  "weights_ok st \<Longrightarrow> 0.01 \<le> c \<Longrightarrow> c \<le> 5.0 \<Longrightarrow> weights_ok (create a b c d e f g st)"
  by (auto simp: weights_ok_def create_def)

lemma ok_mem: "weights_ok st \<Longrightarrow> x \<in> set st \<Longrightarrow> 0.01 \<le> count x \<and> count x \<le> 5.0"
  by (auto simp: weights_ok_def list_all_iff)

lemma ok_add:
  assumes "weights_ok st"
  shows "weights_ok (snd (add_execute rnd sel now_ts msg m st))"
proof (cases m)
  case None
  then show ?thesis using assms by (simp add: add_execute_def)
next
  case (Some g)
  obtain g1 g2 g3 g4 where g: "g = (g1, g2, g3, g4)" by (cases g) auto
  show ?thesis
  proof (cases "target_chat_id sel (case g3 of None \<Rightarrow> [] | Some s \<Rightarrow> s) msg")
    case None
    then show ?thesis using assms Some g by (simp add: add_execute_def)
  next
    case (Some cid)
    note tc = this
    show ?thesis
    proof (cases "find (\<lambda>e. chat_id e = cid \<and> situation e = strip g1 \<and> style e = strip g2) st")
      case None
      have "0.01 \<le> (case py_float rnd w of Some v \<Rightarrow> max 0.01 (min 5.0 v) | None \<Rightarrow> (1.0::real))
            \<and> (case py_float rnd w of Some v \<Rightarrow> max 0.01 (min 5.0 v) | None \<Rightarrow> (1.0::real)) \<le> 5.0"
        for w
        by (cases "py_float rnd w") auto
      then show ?thesis using assms \<open>m = Some g\<close> g tc None
        by (simp add: add_execute_def Let_def ok_create)
    next
      case (Some obj)
      from find_mem[OF Some] have "obj \<in> set st" by simp
      from ok_mem[OF assms this] have "0.01 \<le> count obj" "count obj \<le> 5.0" by auto
      then have "weights_ok (save (obj\<lparr>count := min 5.0 (count obj + 0.1),
           last_active_time := now_ts,
           create_date := (case create_date obj of None \<Rightarrow> Some now_ts | Some d \<Rightarrow> Some d)\<rparr>) st)"
        using assms by (intro ok_save) auto
      then show ?thesis using \<open>m = Some g\<close> g tc Some
        by (simp add: add_execute_def Let_def)
    qed
  qed
qed

lemma ok_delete_cmd: "weights_ok st \<Longrightarrow> weights_ok (snd (delete_execute U sel msg m st))"
  by (auto simp: delete_execute_def get_def ok_delete Let_def split: option.splits sum.splits)

lemma ok_save_upd:
  "weights_ok st \<Longrightarrow> 0.01 \<le> c \<Longrightarrow> c \<le> 5.0 \<Longrightarrow>
   weights_ok (save (expr\<lparr>count := c, last_active_time := t, create_date := cd\<rparr>) st)"
  by (rule ok_save) auto

lemma ok_modify:
  assumes "weights_ok st"
  shows "weights_ok (snd (modify_execute U rnd sel now_ts msg m st))"
  using assms
  by (auto simp: modify_execute_def get_def ok_delete ok_save_upd Let_def
           split: option.splits sum.splits)

lemma update_entry_shape:
  assumes run: "update_entry U J now_ts kvs st = Some st'"
  shows "\<exists>obj expr. st' = save obj st \<and> expr \<in> set st \<and> expr_id obj = expr_id expr \<and>
           (count obj = count expr \<or> count obj = max 0.01 (min 5.0 (count expr + 0.5)))"
proof -
  from run obtain n expr where
    f: "find (\<lambda>e. expr_id e = n) st = Some expr"
    and id: "entry_id U (map_of kvs (ascii ''id'')) = Inr (Some n)"
    by (auto simp: update_entry_def get_def split: sum.splits option.splits)
  from find_mem[OF f] have mem: "expr \<in> set st" by simp
  let ?ns = "case map_of kvs (ascii ''new_situation'') of None \<Rightarrow> None
             | Some v \<Rightarrow> if truthy v \<and> v \<noteq> JStr (situation expr) then Some v else None"
  show ?thesis
  proof (cases ?ns)
    case None
    then have "st' = save (expr\<lparr>last_active_time := now_ts\<rparr>) st"
      using run f id by (simp add: update_entry_def get_def Let_def)
    then show ?thesis using mem
      by (intro exI[of _ "expr\<lparr>last_active_time := now_ts\<rparr>"] exI[of _ expr]) simp
  next
    case (Some v)
    let ?obj = "expr\<lparr>situation := (case v of JStr s \<Rightarrow> s | _ \<Rightarrow> py_str J v),
                     count := max 0.01 (min 5.0 (count expr + 0.5)),
                     last_active_time := now_ts\<rparr>"
    have "st' = save ?obj st"
      using run f id Some by (simp add: update_entry_def get_def Let_def)
    then show ?thesis using mem by (intro exI[of _ ?obj] exI[of _ expr]) simp
  qed
qed

lemma ok_update_entry:
  assumes ok: "weights_ok st" and run: "update_entry U J now_ts kvs st = Some st'"
  shows "weights_ok st'"
proof -
  from update_entry_shape[OF run] obtain obj expr where
    s: "st' = save obj st" and mem: "expr \<in> set st"
    and c: "count obj = count expr \<or> count obj = max 0.01 (min 5.0 (count expr + 0.5))"
    by blast
  have clamp: "0.01 \<le> max 0.01 (min 5.0 x) \<and> max 0.01 (min 5.0 x) \<le> (5.0::real)" for x
    by auto
  from c have "0.01 \<le> count obj \<and> count obj \<le> 5.0"
  proof
    assume "count obj = count expr"
    then show ?thesis using ok_mem[OF ok mem] by simp
  next
    assume "count obj = max 0.01 (min 5.0 (count expr + 0.5))"
    then show ?thesis using clamp[of "count expr + 0.5"] by (simp only:)
  qed
  then show ?thesis using s ok ok_save by blast
qed

lemma ok_update_loop:
  "weights_ok st \<Longrightarrow> weights_ok (snd (update_loop U J now_ts entries k st))"
proof (induction entries arbitrary: k st)
  case Nil
  then show ?case by simp
next
  case (Cons x xs)
  show ?case
  proof (cases x)
    case (JObj kvs)
    show ?thesis
    proof (cases "update_entry U J now_ts kvs st")
      case None
      then show ?thesis using Cons JObj by simp
    next
      case (Some st')
      then have "weights_ok st'" using ok_update_entry Cons.prems by blast
      then show ?thesis using Cons.IH Some JObj by simp
    qed
  qed (use Cons.prems in simp_all)
qed

lemma ok_parse_and_update:
  "weights_ok st \<Longrightarrow> weights_ok (snd (parse_and_update_expressions_v2 U J now_ts r st))"
  by (auto simp: parse_and_update_expressions_v2_def ok_update_loop
           split: option.splits json.splits)

lemma ok_parse_and_update':
  "parse_and_update_expressions_v2 U J now_ts r st = (k, st') \<Longrightarrow> weights_ok st \<Longrightarrow>
   weights_ok st'"
  using ok_parse_and_update[of st U J now_ts r] by simp

lemma ok_learn_apply:
  "weights_ok st \<Longrightarrow> weights_ok (snd (learn_apply U J H now_ts cid bm ds g used st))"
  by (auto simp: learn_apply_def Let_def dest: ok_parse_and_update'
           split: option.splits prod.splits if_splits)

lemma ok_learn_analyse:
  "weights_ok st \<Longrightarrow> weights_ok (snd (learn_analyse U J H now_ts cid bm g st))"
  by (auto simp: learn_analyse_def Let_def ok_learn_apply
           split: option.splits prod.splits if_splits)

lemma ok_learn:
  "weights_ok st \<Longrightarrow> weights_ok (snd (learn_execute U J H now_ts msg m st))"
  by (auto simp: learn_execute_def Let_def ok_learn_analyse
           split: option.splits prod.splits if_splits)

lemma ok_store_sample: "weights_ok store_sample"
  by (simp add: weights_ok_def store_sample_def row5_def row7_def)

text \<open>
  Claim C1. If every weight of the store lies in [0.01, 5.0], then so does every weight
  of the store after the add command (new row or repeated add), the adjustment
  command, the delete command, the update step of the learning flow and the whole
  learning command, for all their inputs and every rounding. And when the adjustment
  command finds its row and the float sum of weight and delta is at most 0, no row of
  that id is left.
\<close>

theorem weights_stay_in_range:
  assumes ok: "weights_ok st"
  shows "weights_ok (snd (add_execute rnd sel now_ts msg ma st)) \<and>
         weights_ok (snd (modify_execute U rnd sel now_ts msg mm st)) \<and>
         weights_ok (snd (delete_execute U sel msg md st)) \<and>
         weights_ok (snd (parse_and_update_expressions_v2 U J now_ts r st)) \<and>
         weights_ok (snd (learn_execute U J H now_ts msg ml st)) \<and>
         (target_chat_id sel (case g3 of None \<Rightarrow> [] | Some s \<Rightarrow> s) msg = Some cid \<and>
          py_float rnd ws = Some d \<and> py_int U ids = Some n \<and>
          find (\<lambda>e. expr_id e = n \<and> chat_id e = cid) st = Some expr \<and>
          rnd (count expr + d) \<le> 0
          \<longrightarrow> find (\<lambda>e. expr_id e = n)
                (snd (modify_execute U rnd sel now_ts msg (Some (ids, ws, g3)) st)) = None)"
proof -
  have del: "find (\<lambda>e. expr_id e = n)
                (snd (modify_execute U rnd sel now_ts msg (Some (ids, ws, g3)) st)) = None"
    if tc: "target_chat_id sel (case g3 of None \<Rightarrow> [] | Some s \<Rightarrow> s) msg = Some cid"
      and fl: "py_float rnd ws = Some d" and idn: "py_int U ids = Some n"
      and ex: "find (\<lambda>e. expr_id e = n \<and> chat_id e = cid) st = Some expr"
      and le: "rnd (count expr + d) \<le> 0"
  proof -
    from find_id_mem[OF ex] have eid: "expr_id expr = n" by simp
    have "snd (modify_execute U rnd sel now_ts msg (Some (ids, ws, g3)) st) =
            filter (\<lambda>e. expr_id e \<noteq> n) st"
      using tc fl idn ex eid le by (simp add: modify_execute_def get_def delete_instance_def)
    then show ?thesis by (simp add: find_None_iff)
  qed
  show ?thesis
  proof (intro conjI impI)
    show "weights_ok (snd (add_execute rnd sel now_ts msg ma st))" by (rule ok_add[OF ok])
    show "weights_ok (snd (modify_execute U rnd sel now_ts msg mm st))" by (rule ok_modify[OF ok])
    show "weights_ok (snd (delete_execute U sel msg md st))" by (rule ok_delete_cmd[OF ok])
    show "weights_ok (snd (parse_and_update_expressions_v2 U J now_ts r st))"
      by (rule ok_parse_and_update[OF ok])
    show "weights_ok (snd (learn_execute U J H now_ts msg ml st))" by (rule ok_learn[OF ok])
  next
    assume "target_chat_id sel (case g3 of None \<Rightarrow> [] | Some s \<Rightarrow> s) msg = Some cid \<and>
          py_float rnd ws = Some d \<and> py_int U ids = Some n \<and>
          find (\<lambda>e. expr_id e = n \<and> chat_id e = cid) st = Some expr \<and>
          rnd (count expr + d) \<le> 0"
    then show "find (\<lambda>e. expr_id e = n)
                (snd (modify_execute U rnd sel now_ts msg (Some (ids, ws, g3)) st)) = None"
      using del by blast
  qed
qed

text \<open>
  The sample store satisfies the invariant, and still does after an adjustment of
  row 5 by +0.5.
\<close>

theorem weights_stay_in_range_witness:
  "weights_ok store_sample \<and>
   weights_ok (snd (modify_execute ucd_sample rnd_sample sel_sample 200 msg_sample
                      (Some (ascii ''5'', ascii ''+0.5'', None)) store_sample))"
  using weights_stay_in_range[OF ok_store_sample,
      where rnd = rnd_sample and sel = sel_sample and now_ts = 200 and msg = msg_sample
        and U = ucd_sample and mm = "Some (ascii ''5'', ascii ''+0.5'', None)"]
    ok_store_sample
  by simp

section \<open>The analysis command reads only\<close>

text \<open>
  Claim C8. For every input, match, host and response, the store after
  \<open>AnalyzeMessageExpressionCommand.execute\<close> is the store before it, whether the
  command reports success or failure.
\<close>

theorem analyze_reads_only: "snd (analyze_execute U J H m st) = st"
  by (auto simp: analyze_execute_def Let_def split: option.splits prod.splits)

section \<open>The update step of the learning flow\<close>

lemma strip_same: "strip resp_same = resp_same"
  by (simp add: strip_def strip_chars_def resp_same_def isspace_c_def)

lemma json_text_same: "json_text resp_same = Some resp_same"
  unfolding json_text_def strip_same
  by (simp add: resp_same_def py_find_def py_rfind_def slice_def)

lemma json_text_new: "json_text resp_new = Some text_new"
  by (simp add: json_text_def resp_new_def text_new_def py_find_def py_rfind_def slice_def
        strip_def strip_chars_def isspace_c_def)

lemma decode_same: "decode jsonlib_sample resp_same = Some doc_same"
  by (simp add: decode_def jsonlib_sample_def)

lemma text_new_neq: "text_new \<noteq> resp_same"
  by (simp add: text_new_def resp_same_def)

lemma decode_new: "decode jsonlib_sample text_new = Some doc_new"
  using text_new_neq by (simp add: decode_def jsonlib_sample_def)

lemma entry_id_5: "entry_id U (Some (JInt 5)) = Inr (Some 5)"
  by (simp add: entry_id_def)

lemma find5: "find (\<lambda>e. expr_id e = 5) store_sample = Some row5"
  by (simp add: store_sample_def row5_def)

text \<open>
  Claim C4, as the code has it. A response entry (an object with members \<open>kvs\<close>)
  names the id \<open>n\<close> of the row \<open>expr\<close>. Then the row is saved and the entry is
  counted as updated in every case: the loop goes on with the count raised by one.
  The rows of other ids are unchanged; the saved row has the new
  \<open>last_active_time\<close> and its old style. When \<open>new_situation\<close> is present, true
  and different from the stored situation, the row gets that situation and the weight
  \<open>max 0.01 (min 5.0 (count expr + 0.5))\<close>. Otherwise (the member is missing, null or
  empty, or equal to the stored situation) weight and situation stay as stored.
\<close>

theorem situation_revision:
  assumes id: "entry_id U (map_of kvs (ascii ''id'')) = Inr (Some n)"
    and f: "find (\<lambda>e. expr_id e = n) st = Some expr"
  shows "\<exists>st' e'. update_entry U J now_ts kvs st = Some st' \<and>
           update_loop U J now_ts (JObj kvs # rest) k st =
             update_loop U J now_ts rest (Suc k) st' \<and>
           find (\<lambda>e. expr_id e = n) st' = Some e' \<and>
           filter (\<lambda>e. expr_id e \<noteq> n) st' = filter (\<lambda>e. expr_id e \<noteq> n) st \<and>
           last_active_time e' = now_ts \<and> style e' = style expr \<and>
           (case map_of kvs (ascii ''new_situation'') of
              None \<Rightarrow> count e' = count expr \<and> situation e' = situation expr
            | Some v \<Rightarrow>
                if truthy v \<and> v \<noteq> JStr (situation expr)
                then count e' = max 0.01 (min 5.0 (count expr + 0.5)) \<and>
                     situation e' = (case v of JStr s \<Rightarrow> s | _ \<Rightarrow> py_str J v)
                else count e' = count expr \<and> situation e' = situation expr)"
proof -
  from find_mem[OF f] have mem: "expr \<in> set st" and eid: "expr_id expr = n" by auto
  let ?ns = "case map_of kvs (ascii ''new_situation'') of None \<Rightarrow> None
             | Some v \<Rightarrow> if truthy v \<and> v \<noteq> JStr (situation expr) then Some v else None"
  define e' where "e' =
    (case ?ns of
       None \<Rightarrow> expr\<lparr>last_active_time := now_ts\<rparr>
     | Some v \<Rightarrow> expr\<lparr>situation := (case v of JStr s \<Rightarrow> s | _ \<Rightarrow> py_str J v),
                       count := max 0.01 (min 5.0 (count expr + 0.5)),
                       last_active_time := now_ts\<rparr>)"
  have id': "expr_id e' = n"
    using eid by (simp add: e'_def split: option.splits)
  have run: "update_entry U J now_ts kvs st = Some (save e' st)"
    using id f by (cases ?ns) (simp_all add: update_entry_def get_def Let_def e'_def)
  have loop: "update_loop U J now_ts (JObj kvs # rest) k st =
              update_loop U J now_ts rest (Suc k) (save e' st)"
    using run by simp
  have fnd: "find (\<lambda>e. expr_id e = n) (save e' st) = Some e'"
    using find_save_same[OF mem, of e'] id' eid by simp
  have oth: "filter (\<lambda>e. expr_id e \<noteq> n) (save e' st) = filter (\<lambda>e. expr_id e \<noteq> n) st"
    using save_others[of e' st] id' by simp
  have props: "last_active_time e' = now_ts \<and> style e' = style expr \<and>
           (case map_of kvs (ascii ''new_situation'') of
              None \<Rightarrow> count e' = count expr \<and> situation e' = situation expr
            | Some v \<Rightarrow>
                if truthy v \<and> v \<noteq> JStr (situation expr)
                then count e' = max 0.01 (min 5.0 (count expr + 0.5)) \<and>
                     situation e' = (case v of JStr s \<Rightarrow> s | _ \<Rightarrow> py_str J v)
                else count e' = count expr \<and> situation e' = situation expr)"
    by (simp add: e'_def split: option.splits)
  show ?thesis
    using run loop fnd oth props by blast
qed

text \<open>
  Row 5 has the situation \<open>sorry\<close> and the weight 1.0. An entry that proposes
  \<open>apology\<close> is counted and raises the weight to 1.5; so does the whole update
  step on a response that wraps this entry in prose.
\<close>

theorem situation_revision_witness:
  "update_loop ucd_sample jsonlib_sample 200
     [JObj [(ascii ''id'', JInt 5), (ascii ''new_situation'', JStr (ascii ''apology''))]]
     0 store_sample
   = (1, [row5\<lparr>situation := ascii ''apology'', count := 1.5, last_active_time := 200\<rparr>, row7])
   \<and> parse_and_update_expressions_v2 ucd_sample jsonlib_sample 200 resp_new store_sample
   = (1, [row5\<lparr>situation := ascii ''apology'', count := 1.5, last_active_time := 200\<rparr>, row7])"
proof -
  let ?kvs = "[(ascii ''id'', JInt 5), (ascii ''new_situation'', JStr (ascii ''apology''))]"
  have whole: "parse_and_update_expressions_v2 ucd_sample jsonlib_sample 200 resp_new store_sample
     = (1, [row5\<lparr>situation := ascii ''apology'', count := 1.5, last_active_time := 200\<rparr>,
            row7])"
    by (simp add: parse_and_update_expressions_v2_def json_text_new decode_new doc_new_def
          update_entry_def entry_id_def get_def save_def store_sample_def row5_def row7_def)
  have id: "entry_id ucd_sample (map_of ?kvs (ascii ''id'')) = Inr (Some 5)"
    using entry_id_5 by simp
  from situation_revision[OF id find5, of jsonlib_sample 200 "[]" 0]
  obtain st' where
    l: "update_loop ucd_sample jsonlib_sample 200 [JObj ?kvs] 0 store_sample =
        update_loop ucd_sample jsonlib_sample 200 [] (Suc 0) st'"
    and u: "update_entry ucd_sample jsonlib_sample 200 ?kvs store_sample = Some st'"
    by blast
  have "update_entry ucd_sample jsonlib_sample 200 ?kvs store_sample =
        Some [row5\<lparr>situation := ascii ''apology'', count := 1.5, last_active_time := 200\<rparr>, row7]"
    by (simp add: update_entry_def entry_id_def get_def save_def store_sample_def row5_def
          row7_def)
  with u have "st' = [row5\<lparr>situation := ascii ''apology'', count := 1.5,
                           last_active_time := 200\<rparr>, row7]"
    by simp
  with l whole show ?thesis by simp
qed

text \<open>
  The response proposes for row 5 the situation it already has. The weight stays
  1.0, and the count that \<open>_parse_and_update_expressions_v2\<close> returns is 1, not 0.
\<close>

theorem same_situation_counted_counterexample:
  "parse_and_update_expressions_v2 ucd_sample jsonlib_sample 200 resp_same store_sample
     = (1, [row5\<lparr>last_active_time := 200\<rparr>, row7])"
  by (simp add: parse_and_update_expressions_v2_def json_text_same decode_same doc_same_def
        update_entry_def entry_id_def get_def save_def store_sample_def row5_def row7_def)

section \<open>The target chat\<close>

lemma strip_chars_id:
  assumes ne: "s \<noteq> []" and h: "\<not> p (hd s)" and l: "\<not> p (last s)"
  shows "strip_chars p s = s"
proof -
  have a: "dropWhile p s = s" using ne h by (cases s) auto
  from ne obtain x xs where r: "rev s = x # xs" by (cases "rev s") auto
  then have "x = last s" using ne hd_rev[of s] by simp
  then have "dropWhile p (x # xs) = x # xs" using l by simp
  then have b: "dropWhile p (rev s) = rev s" by (simp only: r)
  show ?thesis by (simp add: strip_chars_def a b)
qed

lemma md5_not_space:
  "(97 \<le> c \<and> c \<le> 102) \<or> (48 \<le> c \<and> c \<le> 57) \<Longrightarrow> \<not> isspace_c c"
  by (auto simp: isspace_c_def)

lemma md5_strip:
  assumes "is_md5 t"
  shows "t \<noteq> [] \<and> strip t = t"
proof -
  from assms have len: "length t = 32"
    and all: "\<forall>c\<in>set t. (97 \<le> c \<and> c \<le> 102) \<or> (48 \<le> c \<and> c \<le> 57)"
    by (auto simp: is_md5_def list_all_iff)
  from len have ne: "t \<noteq> []" by auto
  then have "hd t \<in> set t" "last t \<in> set t" by auto
  then have "\<not> isspace_c (hd t)" "\<not> isspace_c (last t)"
    using all md5_not_space by blast+
  then show ?thesis using ne by (simp add: strip_def strip_chars_id)
qed

lemma md5_sample: "is_md5 (ascii ''0123456789abcdef0123456789abcdef'')"
  by (simp add: is_md5_def)

text \<open>
  Claim C7, as the code has it. A token of 32 characters from \<open>a-f0-9\<close> resolves to
  itself and is the target chat. Any other non-empty token is stripped and handed to
  the host's selector, and resolves to what the selector returns, to None when the
  selector raises; the empty token resolves to None. Whenever the token resolves to
  None, be it empty or not, the target chat is the \<open>stream_id\<close> of the issuing chat
  if that is present and not empty, and otherwise there is none; with no target chat
  the add command replies "no target chat" and leaves the store as it is.
\<close>

theorem chat_resolution:
  "(is_md5 t \<longrightarrow>
      parse_stream_config_to_chat_id sel t = Some t \<and> target_chat_id sel t msg = Some t) \<and>
   (t \<noteq> [] \<and> \<not> is_md5 (strip t) \<longrightarrow>
      parse_stream_config_to_chat_id sel t =
        (case sel (strip t) of Inl e \<Rightarrow> None | Inr r \<Rightarrow> r)) \<and>
   parse_stream_config_to_chat_id sel [] = None \<and>
   (parse_stream_config_to_chat_id sel t = None \<longrightarrow>
      target_chat_id sel t msg =
        (case chat_stream msg of
           None \<Rightarrow> None
         | Some cs \<Rightarrow>
             (case stream_id cs of
                None \<Rightarrow> None
              | Some sid \<Rightarrow> if sid = [] then None else Some sid))) \<and>
   (target_chat_id sel (case g3 of None \<Rightarrow> [] | Some s \<Rightarrow> s) msg = None \<longrightarrow>
      add_execute rnd sel now_ts msg (Some (g1, g2, g3, g4)) st = ((False, NoTargetChat, True), st))"
proof (intro conjI impI)
  assume m: "is_md5 t"
  from md5_strip[OF m] show "parse_stream_config_to_chat_id sel t = Some t"
    using m by (simp add: parse_stream_config_to_chat_id_def)
  then show "target_chat_id sel t msg = Some t" by (simp add: target_chat_id_def)
next
  assume "t \<noteq> [] \<and> \<not> is_md5 (strip t)"
  then show "parse_stream_config_to_chat_id sel t =
        (case sel (strip t) of Inl e \<Rightarrow> None | Inr r \<Rightarrow> r)"
    by (simp add: parse_stream_config_to_chat_id_def)
next
  show "parse_stream_config_to_chat_id sel [] = None"
    by (simp add: parse_stream_config_to_chat_id_def)
next
  assume "parse_stream_config_to_chat_id sel t = None"
  then show "target_chat_id sel t msg =
        (case chat_stream msg of
           None \<Rightarrow> None
         | Some cs \<Rightarrow>
             (case stream_id cs of
                None \<Rightarrow> None
              | Some sid \<Rightarrow> if sid = [] then None else Some sid))"
    by (simp add: target_chat_id_def)
next
  assume "target_chat_id sel (case g3 of None \<Rightarrow> [] | Some s \<Rightarrow> s) msg = None"
  then show "add_execute rnd sel now_ts msg (Some (g1, g2, g3, g4)) st =
               ((False, NoTargetChat, True), st)"
    by (simp add: add_execute_def)
qed

text \<open>A token of 32 hexadecimal characters is the target chat.\<close>

theorem chat_resolution_witness:
  "target_chat_id sel_sample (ascii ''0123456789abcdef0123456789abcdef'') msg_sample
     = Some (ascii ''0123456789abcdef0123456789abcdef'')"
  using chat_resolution[of "ascii ''0123456789abcdef0123456789abcdef''" sel_sample msg_sample]
    md5_sample by blast

text \<open>
  The token \<open>nochat\<close> is supplied and does not resolve; the target chat is the
  issuing chat all the same.
\<close>

theorem explicit_token_fallback_counterexample:
  "parse_stream_config_to_chat_id sel_sample (ascii ''nochat'') = None \<and>
   target_chat_id sel_sample (ascii ''nochat'') msg_sample = Some (ascii ''chatA'')"
  by (simp add: target_chat_id_def parse_stream_config_to_chat_id_def strip_def strip_chars_def
        isspace_c_def is_md5_def sel_sample_def msg_sample_def)

section \<open>The ids of a message\<close>

lemma collect_ids_exact:
  "collect_ids U parts acc =
     acc @ List.map_filter (token_id U) (takeWhile (\<lambda>p. \<not> int_raises U p) parts)"
  by (induction parts arbitrary: acc) (auto simp: token_id_def int_raises_def)

lemma parse_tokens:
  "s \<noteq> [] \<Longrightarrow> parse_selected_expressions U s = collect_ids U (id_tokens s) []"
  by (simp add: parse_selected_expressions_def id_tokens_def Let_def)

lemma tokens_empty_exact:
  "List.map_filter (token_id U) (takeWhile (\<lambda>p. \<not> int_raises U p) (id_tokens [])) = []"
  by (simp add: id_tokens_def strip_chars_def token_id_def strip_def isdigit_def int_raises_def)

lemma parse_exact:
  "parse_selected_expressions U s =
     List.map_filter (token_id U) (takeWhile (\<lambda>p. \<not> int_raises U p) (id_tokens s))"
proof (cases "s = []")
  case True
  then show ?thesis by (simp add: parse_selected_expressions_def tokens_empty_exact)
next
  case False
  then show ?thesis using collect_ids_exact[of U "id_tokens s" "[]"] by (simp add: parse_tokens)
qed

text \<open>
  Claim C6, as the code has it. The text \<open>[62, 201, 386]\<close> yields 62, 201, 386;
  the text \<open>[]\<close> and the empty text yield no id. For every text the result is the
  list, in order, of the ids of the digit tokens that come before the first token on
  which \<open>int()\<close> raises; a token that is not a digit string contributes nothing. So
  when \<open>int()\<close> raises on no token, the result is the ids of all digit tokens, and
  when no token is a digit string it is empty. The function has a list for every
  text: no text raises.
\<close>

theorem bracketed_ids:
  "parse_selected_expressions U (ascii ''[62, 201, 386]'') = [62, 201, 386] \<and>
   parse_selected_expressions U (ascii ''[]'') = [] \<and>
   parse_selected_expressions U [] = [] \<and>
   parse_selected_expressions U s =
     List.map_filter (token_id U) (takeWhile (\<lambda>p. \<not> int_raises U p) (id_tokens s)) \<and>
   ((\<forall>p\<in>set (id_tokens s). \<not> int_raises U p) \<longrightarrow>
      parse_selected_expressions U s = List.map_filter (token_id U) (id_tokens s)) \<and>
   ((\<forall>p\<in>set (id_tokens s). \<not> isdigit U (strip p)) \<longrightarrow> parse_selected_expressions U s = [])"
proof (intro conjI impI)
  show "parse_selected_expressions U (ascii ''[62, 201, 386]'') = [62, 201, 386]"
    by (simp add: parse_selected_expressions_def strip_chars_def strip_def isdigit_def
          isdigit_c_def is_decimal_def py_int_def decimal_value_def isspace_c_def)
  show "parse_selected_expressions U (ascii ''[]'') = []"
    by (simp add: parse_selected_expressions_def strip_chars_def strip_def isdigit_def)
  show "parse_selected_expressions U [] = []"
    by (simp add: parse_selected_expressions_def)
  show "parse_selected_expressions U s =
     List.map_filter (token_id U) (takeWhile (\<lambda>p. \<not> int_raises U p) (id_tokens s))"
    by (rule parse_exact)
next
  assume a: "\<forall>p\<in>set (id_tokens s). \<not> int_raises U p"
  have tw: "takeWhile (\<lambda>p. \<not> int_raises U p) (id_tokens s) = id_tokens s"
    using a by (simp add: takeWhile_eq_all_conv)
  show "parse_selected_expressions U s = List.map_filter (token_id U) (id_tokens s)"
    using parse_exact[of U s] by (simp only: tw)
next
  assume a: "\<forall>p\<in>set (id_tokens s). \<not> isdigit U (strip p)"
  have "List.map_filter (token_id U) xs = []"
    if "\<forall>p\<in>set xs. \<not> isdigit U (strip p)" for xs
    using that by (induction xs) (auto simp: token_id_def)
  moreover have "\<forall>p\<in>set (takeWhile (\<lambda>p. \<not> int_raises U p) (id_tokens s)). \<not> isdigit U (strip p)"
    using a by (meson set_takeWhileD)
  ultimately show "parse_selected_expressions U s = []"
    using parse_exact[of U s] by simp
qed

text \<open>The token \<open>x\<close> is dropped, the ids around it are kept.\<close>

theorem bracketed_ids_witness:
  "parse_selected_expressions ucd_sample (ascii ''[62, x, 386]'') = [62, 386]"
proof -
  have t: "id_tokens (ascii ''[62, x, 386]'') = [ascii ''62'', ascii ''x'', ascii ''386'']"
    by (simp add: id_tokens_def strip_chars_def)
  have h: "\<forall>p\<in>set (id_tokens (ascii ''[62, x, 386]'')). \<not> int_raises ucd_sample p"
    unfolding t
    by (simp add: int_raises_def strip_def strip_chars_def isspace_c_def isdigit_def
          isdigit_c_def is_decimal_def py_int_def ucd_sample_def)
  have v: "List.map_filter (token_id ucd_sample) [ascii ''62'', ascii ''x'', ascii ''386'']
           = [62, 386]"
    by (simp add: List.map_filter_def token_id_def strip_def strip_chars_def isspace_c_def
          isdigit_def isdigit_c_def is_decimal_def py_int_def decimal_value_def ucd_sample_def)
  from bracketed_ids[of ucd_sample "ascii ''[62, x, 386]''"] h
  have "parse_selected_expressions ucd_sample (ascii ''[62, x, 386]'') =
        List.map_filter (token_id ucd_sample) (id_tokens (ascii ''[62, x, 386]''))"
    by blast
  then show ?thesis by (simp only: t v)
qed

text \<open>
  The text \<open>[12, 34\<close> lacks its closing bracket, and yields the ids 12 and 34, not
  the empty list.
\<close>

theorem malformed_ids_counterexample:
  "parse_selected_expressions ucd_sample (ascii ''[12, 34'') = [12, 34]"
  by (simp add: parse_selected_expressions_def strip_chars_def strip_def isdigit_def
        isdigit_c_def is_decimal_def py_int_def decimal_value_def isspace_c_def)

section \<open>Extracting the JSON of a response\<close>



















section \<open>The pattern of the weight adjustment\<close>

lemma spans_iff: "s' \<in> set (spans p s) \<longleftrightarrow> (\<exists>w. w \<noteq> [] \<and> s = w @ s' \<and> list_all p w)"
proof (induction s)
  case Nil
  then show ?case by simp
next
  case (Cons c t)
  show ?case
  proof
    assume "s' \<in> set (spans p (c # t))"
    then have pc: "p c" and d: "s' = t \<or> s' \<in> set (spans p t)" by (auto split: if_splits)
    from d show "\<exists>w. w \<noteq> [] \<and> c # t = w @ s' \<and> list_all p w"
    proof
      assume "s' = t"
      then show ?thesis using pc by (intro exI[of _ "[c]"]) simp
    next
      assume "s' \<in> set (spans p t)"
      then obtain w where "w \<noteq> []" "t = w @ s'" "list_all p w" using Cons by blast
      then show ?thesis using pc by (intro exI[of _ "c # w"]) simp
    qed
  next
    assume "\<exists>w. w \<noteq> [] \<and> c # t = w @ s' \<and> list_all p w"
    then obtain w where w: "w \<noteq> []" "c # t = w @ s'" "list_all p w" by blast
    then obtain w' where w': "w = c # w'" by (cases w) auto
    then have pc: "p c" and t: "t = w' @ s'" and all: "list_all p w'" using w by auto
    show "s' \<in> set (spans p (c # t))"
    proof (cases "w' = []")
      case True
      then show ?thesis using pc t by simp
    next
      case False
      then have "s' \<in> set (spans p t)" using Cons t all by blast
      then show ?thesis using pc by simp
    qed
  qed
qed

lemma run_many1:
  "(g', s') \<in> set (run U (Many1 b k) (g, s)) \<longleftrightarrow>
     g' = g \<and> (\<exists>w. w \<noteq> [] \<and> s = w @ s' \<and> list_all (in_cset U k) w)"
  by (auto simp: spans_iff)

lemma run_seq:
  "x \<in> set (run U (Seq a b) gs) \<longleftrightarrow> (\<exists>y \<in> set (run U a gs). x \<in> set (run U b y))"
  by auto

lemma run_chars:
  "(g', s') \<in> set (run U (Chars k) (g, s)) \<longleftrightarrow> g' = g \<and> (\<exists>c. s = c # s' \<and> in_cset U k c)"
  by (cases s) auto

lemma run_suffix:
  "(g', s') \<in> set (run U r (g, s)) \<Longrightarrow> \<exists>w. s = w @ s'"
proof (induction r arbitrary: g s g' s')
  case (Seq a b)
  then obtain g1 s1 where "(g1, s1) \<in> set (run U a (g, s))" "(g', s') \<in> set (run U b (g1, s1))"
    by auto
  then obtain w1 w2 where "s = w1 @ s1" "s1 = w2 @ s'" using Seq.IH by blast
  then show ?case by (intro exI[of _ "w1 @ w2"]) simp
next
  case (Many1 b k)
  then show ?case using run_many1 by blast
next
  case (Chars k)
  then show ?case by (cases s) (auto split: if_splits)
qed (auto split: if_splits)

lemma run_frame:
  "(g', s') \<in> set (run U r (g, s)) \<Longrightarrow> n \<notin> gnames r \<Longrightarrow> g' n = g n"
proof (induction r arbitrary: g s g' s')
  case (Seq a b)
  then obtain g1 s1 where "(g1, s1) \<in> set (run U a (g, s))" "(g', s') \<in> set (run U b (g1, s1))"
    by auto
  moreover have "n \<notin> gnames a" "n \<notin> gnames b" using Seq.prems(2) by auto
  ultimately have "g1 n = g n" "g' n = g1 n" using Seq.IH by blast+
  then show ?case by simp
next
  case (Chars k)
  then show ?case by (cases s) (auto split: if_splits)
next
  case (Group m a)
  then obtain g1 where "(g1, s') \<in> set (run U a (g, s))" "g' = g1(m \<mapsto> take (length s - length s') s)"
    by auto
  then show ?case using Group.IH Group.prems(2) by auto
qed (auto split: if_splits)

lemma gnames_lits: "gnames (lits cs) = {}"
  by (induction cs) (auto simp: lits_def)

lemma decimal_not_space: "is_decimal U c \<Longrightarrow> \<not> isspace_c c"
  by (auto simp: is_decimal_def isspace_c_def)

lemma nocase_not_space:
  "in_cset U (NoCase l) c \<Longrightarrow> (97 \<le> l \<and> l \<le> 122) \<or> l = 34920 \<or> l = 36798 \<Longrightarrow> \<not> isspace_c c"
  by (auto simp: isspace_c_def)

lemma lits_run:
  "(g', s') \<in> set (run U (lits cs) (g, s)) \<Longrightarrow>
   list_all (\<lambda>l. (97 \<le> l \<and> l \<le> 122) \<or> l = 34920 \<or> l = 36798) cs \<Longrightarrow>
   g' = g \<and> (\<exists>w. s = w @ s' \<and> list_all (\<lambda>c. \<not> isspace_c c) w)"
proof (induction cs arbitrary: g s)
  case Nil
  then show ?case by (simp add: lits_def)
next
  case (Cons l ls)
  from Cons.prems(1) have "(g', s') \<in> set (run U (Seq (Chars (NoCase l)) (lits ls)) (g, s))"
    by (simp add: lits_def)
  then obtain y where y: "y \<in> set (run U (Chars (NoCase l)) (g, s))"
    and r: "(g', s') \<in> set (run U (lits ls) y)"
    unfolding run_seq by blast
  obtain g1 s1 where y1: "y = (g1, s1)" by (cases y)
  from y y1 have g1: "g1 = g" and c: "\<exists>c. s = c # s1 \<and> in_cset U (NoCase l) c"
    unfolding run_chars by auto
  then obtain c where sc: "s = c # s1" and ic: "in_cset U (NoCase l) c" by blast
  from Cons.prems(2) have okl: "(97 \<le> l \<and> l \<le> 122) \<or> l = 34920 \<or> l = 36798"
    and okls: "list_all (\<lambda>l. (97 \<le> l \<and> l \<le> 122) \<or> l = 34920 \<or> l = 36798) ls" by auto
  from nocase_not_space[OF ic okl] have ns: "\<not> isspace_c c" .
  from Cons.IH[OF r[unfolded y1] okls] obtain w where "g' = g1" "s1 = w @ s'"
    "list_all (\<lambda>c. \<not> isspace_c c) w" by blast
  then show ?case using g1 sc ns by (intro conjI exI[of _ "c # w"]) auto
qed

lemma prefix_run:
  assumes "(g', s') \<in> set (run U command_prefix (g, s))"
  shows "g' = g \<and> (\<exists>w. w \<noteq> [] \<and> s = w @ s' \<and> list_all (\<lambda>c. \<not> isspace_c c) w)"
proof -
  let ?words = "Alt (lits (ascii ''expr'')) (Alt (lits (ascii ''express'')) (lits [34920, 36798]))"
  from assms obtain y where y: "y \<in> set (run U (Chars (Lit 47)) (g, s))"
    and r: "(g', s') \<in> set (run U ?words y)"
    unfolding command_prefix_def run_seq by blast
  obtain g1 s1 where y1: "y = (g1, s1)" by (cases y)
  from y y1 have g1: "g1 = g" and s: "s = 47 # s1" unfolding run_chars by auto
  from r y1 have "(g', s') \<in> set (run U (lits (ascii ''expr'')) (g1, s1)) \<or>
                 (g', s') \<in> set (run U (lits (ascii ''express'')) (g1, s1)) \<or>
                 (g', s') \<in> set (run U (lits [34920, 36798]) (g1, s1))"
    by auto
  then have "g' = g1 \<and> (\<exists>w. s1 = w @ s' \<and> list_all (\<lambda>c. \<not> isspace_c c) w)"
    by (elim disjE) (drule lits_run, simp, blast)+
  then obtain w where "g' = g1" "s1 = w @ s'" "list_all (\<lambda>c. \<not> isspace_c c) w" by blast
  then show ?thesis using g1 s
    by (intro conjI exI[of _ "47 # w"]) (auto simp: isspace_c_def)
qed

lemma run_spaces:
  "(g', s') \<in> set (run U (Many1 True Space) (g, s)) \<longleftrightarrow>
     g' = g \<and> (\<exists>w. w \<noteq> [] \<and> s = w @ s' \<and> list_all isspace_c w)"
  unfolding run_many1 by (simp add: list_all_iff)

lemma run_digits:
  "(g', s') \<in> set (run U (Many1 True Digit) (g, s)) \<longleftrightarrow>
     g' = g \<and> (\<exists>w. w \<noteq> [] \<and> s = w @ s' \<and> list_all (is_decimal U) w)"
  unfolding run_many1 by (simp add: list_all_iff)

lemma id_and_run:
  assumes "(g', s') \<in> set (run U (id_and R) (g, s))"
  shows "\<exists>p w1 d w2 s4. s = p @ w1 @ d @ w2 @ s4 \<and>
           p \<noteq> [] \<and> list_all (\<lambda>c. \<not> isspace_c c) p \<and>
           w1 \<noteq> [] \<and> list_all isspace_c w1 \<and>
           d \<noteq> [] \<and> list_all (is_decimal U) d \<and>
           w2 \<noteq> [] \<and> list_all isspace_c w2 \<and>
           (g', s') \<in> set (run U R (g(1 \<mapsto> d), s4))"
proof -
  from assms obtain y1 y2 y3 y4 where
    a1: "y1 \<in> set (run U command_prefix (g, s))"
    and a2: "y2 \<in> set (run U (Many1 True Space) y1)"
    and a3: "y3 \<in> set (run U (Group 1 (Many1 True Digit)) y2)"
    and a4: "y4 \<in> set (run U (Many1 True Space) y3)"
    and a5: "(g', s') \<in> set (run U R y4)"
    unfolding id_and_def run_seq by blast
  obtain g1 s1 where y1: "y1 = (g1, s1)" by (cases y1)
  obtain g2 s2 where y2: "y2 = (g2, s2)" by (cases y2)
  obtain g3 s3 where y3: "y3 = (g3, s3)" by (cases y3)
  obtain g4 s4 where y4: "y4 = (g4, s4)" by (cases y4)
  from prefix_run[OF a1[unfolded y1]] obtain p where
    p: "g1 = g" "p \<noteq> []" "s = p @ s1" "list_all (\<lambda>c. \<not> isspace_c c) p" by blast
  from a2[unfolded y1 y2 run_spaces] obtain w1 where
    w1: "g2 = g1" "w1 \<noteq> []" "s1 = w1 @ s2" "list_all isspace_c w1"
    by blast
  from a3[unfolded y2 y3] have
    "\<exists>gd. (gd, s3) \<in> set (run U (Many1 True Digit) (g2, s2)) \<and>
          g3 = gd(1 \<mapsto> take (length s2 - length s3) s2)"
    by (simp only: run.simps) auto
  then obtain gd where gd: "(gd, s3) \<in> set (run U (Many1 True Digit) (g2, s2))"
    and g3: "g3 = gd(1 \<mapsto> take (length s2 - length s3) s2)" by blast
  from gd[unfolded run_digits] obtain d where
    d: "gd = g2" "d \<noteq> []" "s2 = d @ s3" "list_all (is_decimal U) d"
    by blast
  from a4[unfolded y3 y4 run_spaces] obtain w2 where
    w2: "g4 = g3" "w2 \<noteq> []" "s3 = w2 @ s4" "list_all isspace_c w2"
    by blast
  have cap: "g4 = g(1 \<mapsto> d)" using g3 d p w1 w2 by simp
  have "s = p @ w1 @ d @ w2 @ s4" using p w1 d w2 by simp
  then show ?thesis using p w1 d w2 a5 y4 cap by blast
qed

lemma split_unique:
  "xs @ a # r = ys @ b # r' \<Longrightarrow> list_all P xs \<Longrightarrow> list_all P ys \<Longrightarrow> \<not> P a \<Longrightarrow> \<not> P b \<Longrightarrow>
   xs = ys \<and> a # r = b # r'"
proof (induction xs arbitrary: ys)
  case Nil
  then show ?case by (cases ys) auto
next
  case (Cons x xs)
  then show ?case by (cases ys) auto
qed

lemma id_and_unique:
  assumes e: "p @ w1 @ d @ w2 @ a # r = p' @ w1' @ d' @ w2' @ b # r'"
    and p: "list_all (\<lambda>c. \<not> isspace_c c) p" "list_all (\<lambda>c. \<not> isspace_c c) p'"
    and w1: "w1 \<noteq> []" "list_all isspace_c w1" "w1' \<noteq> []" "list_all isspace_c w1'"
    and d: "d \<noteq> []" "list_all (is_decimal U) d" "d' \<noteq> []" "list_all (is_decimal U) d'"
    and w2: "w2 \<noteq> []" "list_all isspace_c w2" "w2' \<noteq> []" "list_all isspace_c w2'"
    and a: "\<not> isspace_c a" and b: "\<not> isspace_c b"
  shows "a = b"
proof -
  obtain x1 t1 where x1: "w1 = x1 # t1" using w1(1) by (cases w1) auto
  obtain x1' t1' where x1': "w1' = x1' # t1'" using w1(3) by (cases w1') auto
  have sp: "isspace_c x1" "isspace_c x1'" using w1 x1 x1' by auto
  have "p @ x1 # (t1 @ d @ w2 @ a # r) = p' @ x1' # (t1' @ d' @ w2' @ b # r')"
    using e x1 x1' by simp
  from split_unique[OF this p] sp
  have e1: "w1 @ d @ w2 @ a # r = w1' @ d' @ w2' @ b # r'" using x1 x1' by simp
  obtain y t where y: "d = y # t" using d(1) by (cases d) auto
  obtain y' t' where y': "d' = y' # t'" using d(3) by (cases d') auto
  have nd: "\<not> isspace_c y" "\<not> isspace_c y'" using d y y' decimal_not_space by auto
  have "w1 @ y # (t @ w2 @ a # r) = w1' @ y' # (t' @ w2' @ b # r')" using e1 y y' by simp
  from split_unique[OF this w1(2) w1(4) nd]
  have e2: "d @ w2 @ a # r = d' @ w2' @ b # r'" using y y' by simp
  obtain z u where z: "w2 = z # u" using w2(1) by (cases w2) auto
  obtain z' u' where z': "w2' = z' # u'" using w2(3) by (cases w2') auto
  have nz: "\<not> is_decimal U z" "\<not> is_decimal U z'"
    using w2 z z' decimal_not_space by auto
  have "d @ z # (u @ a # r) = d' @ z' # (u' @ b # r')" using e2 z z' by simp
  from split_unique[OF this d(2) d(4) nz]
  have e3: "w2 @ a # r = w2' @ b # r'" using z z' by simp
  from split_unique[OF e3 w2(2) w2(4) a b] show ?thesis by simp
qed

lemma number_run:
  assumes "(g', s') \<in> set (run U number (g, s))"
  shows "\<exists>c r. s = c # r \<and> 48 \<le> c \<and> c \<le> 57"
proof -
  from assms obtain y where y: "y \<in> set (run U (Many1 True AsciiDigit) (g, s))"
    unfolding number_def run_seq by blast
  obtain g1 s1 where y1: "y = (g1, s1)" by (cases y)
  from y[unfolded y1 run_many1] obtain w where
    w: "w \<noteq> []" "s = w @ s1" "list_all (in_cset U AsciiDigit) w" by blast
  then obtain c t where "w = c # t" by (cases w) auto
  then show ?thesis using w by auto
qed

lemma gnames_in_chat: "gnames (in_chat n) = {n}"
  by (simp add: in_chat_def gnames_lits)

lemma sign_tail:
  assumes "(g', s') \<in> set (run U (Seq (Group 2 (Seq (Chars (OneOf [43, 45])) number)) (in_chat 3))
                              (g, s4))"
  shows "\<exists>sg num r. (sg = 43 \<or> sg = 45) \<and> s4 = sg # r \<and> g' 2 = Some (sg # num)"
proof -
  from assms obtain y where
    y: "y \<in> set (run U (Group 2 (Seq (Chars (OneOf [43, 45])) number)) (g, s4))"
    and t: "(g', s') \<in> set (run U (in_chat 3) y)"
    unfolding run_seq by blast
  obtain g5 s5 where y5: "y = (g5, s5)" by (cases y)
  from y[unfolded y5] have
    "\<exists>gd. (gd, s5) \<in> set (run U (Seq (Chars (OneOf [43, 45])) number) (g, s4)) \<and>
          g5 = gd(2 \<mapsto> take (length s4 - length s5) s4)"
    by (simp only: run.simps) auto
  then obtain gd where gd: "(gd, s5) \<in> set (run U (Seq (Chars (OneOf [43, 45])) number) (g, s4))"
    and g5: "g5 = gd(2 \<mapsto> take (length s4 - length s5) s4)" by blast
  from gd obtain z where z: "z \<in> set (run U (Chars (OneOf [43, 45])) (g, s4))"
    and n: "(gd, s5) \<in> set (run U number z)"
    unfolding run_seq by blast
  obtain g6 s6 where z6: "z = (g6, s6)" by (cases z)
  from z[unfolded z6 run_chars] obtain sg where
    sg: "s4 = sg # s6" "in_cset U (OneOf [43, 45]) sg" by blast
  then have sign: "sg = 43 \<or> sg = 45" by auto
  from run_suffix[OF n[unfolded z6]] obtain w where w: "s6 = w @ s5" by blast
  have "take (length s4 - length s5) s4 = sg # w" using sg(1) w by simp
  then have cap: "g5 2 = Some (sg # w)" using g5 by simp
  have "g' 2 = g5 2"
    using run_frame[OF t[unfolded y5], of 2] by (simp add: gnames_in_chat)
  then show ?thesis using sign sg(1) cap by auto
qed

lemma unsigned_tail:
  assumes "(g', s') \<in> set (run U (Seq (Group 2 number) (in_chat 3)) (g, s4))"
  shows "\<exists>c r. s4 = c # r \<and> 48 \<le> c \<and> c \<le> 57"
proof -
  from assms obtain y where y: "y \<in> set (run U (Group 2 number) (g, s4))"
    unfolding run_seq by blast
  obtain g5 s5 where y5: "y = (g5, s5)" by (cases y)
  from y[unfolded y5] have "\<exists>gd. (gd, s5) \<in> set (run U number (g, s4))"
    by (simp only: run.simps) auto
  then show ?thesis using number_run by blast
qed

lemma re_match_Some:
  assumes "re_match U r t = Some g"
  shows "\<exists>rest. (g, rest) \<in> set (run U r (Map.empty, t))"
proof -
  let ?f = "filter (\<lambda>(g, rest). rest = [] \<or> rest = [10]) (run U r (Map.empty, t))"
  from assms obtain rest xs where "?f = (g, rest) # xs"
    by (auto simp: re_match_def split: list.splits)
  then have "(g, rest) \<in> set ?f" by simp
  then show ?thesis by auto
qed

lemma re_match_run:
  assumes "re_match U r t \<noteq> None"
  shows "\<exists>g rest. (g, rest) \<in> set (run U r (Map.empty, t))"
proof -
  from assms obtain g where "re_match U r t = Some g" by auto
  from re_match_Some[OF this] show ?thesis by blast
qed

lemma unsigned_line: "re_match ucd_sample unsigned_pattern (ascii ''/expr 5 0.5'') \<noteq> None"
  by (simp add: re_match_def unsigned_pattern_def id_and_def command_prefix_def lits_def
        in_chat_def number_def isspace_c_def is_decimal_def)

lemma signed_line:
  "map_option (\<lambda>g. (g 1, g 2, g 3)) (re_match ucd_sample modify_pattern (ascii ''/expr 5 +0.5''))
     = Some (Some (ascii ''5''), Some (ascii ''+0.5''), None)"
  by (simp add: re_match_def modify_pattern_def id_and_def command_prefix_def lits_def
        in_chat_def number_def isspace_c_def is_decimal_def)

text \<open>
  Claim C9. When the pattern of the adjustment command matches a text, the delta it
  captures (group 2) begins with \<open>+\<close> or \<open>-\<close>. A text that has the shape of the
  command with an unsigned number in the place of the delta, that is, a text that the
  pattern matches once the sign is taken out of it, is not matched by the pattern of
  the command; on a message with such a text the command replies with its usage line
  and leaves the store as it is. This holds for every character database.
\<close>

theorem signed_delta:
  "(re_match U modify_pattern line = Some g \<longrightarrow>
      (\<exists>sg num. (sg = 43 \<or> sg = 45) \<and> g 2 = Some (sg # num))) \<and>
   (re_match U unsigned_pattern line \<noteq> None \<longrightarrow> re_match U modify_pattern line = None) \<and>
   (re_match U unsigned_pattern (text_of msg) \<noteq> None \<longrightarrow>
      modify_command U rnd sel now_ts msg st = (Inr (False, UsageModify, True), st))"
proof -
  have excl: "re_match U modify_pattern t = None" if u: "re_match U unsigned_pattern t \<noteq> None"
    for t
  proof (rule ccontr)
    assume m: "re_match U modify_pattern t \<noteq> None"
    from re_match_run[OF u] obtain gu ru where
      "(gu, ru) \<in> set (run U unsigned_pattern (Map.empty, t))" by blast
    from id_and_run[OF this[unfolded unsigned_pattern_def]] obtain p w1 d w2 s4 where
      tu: "t = p @ w1 @ d @ w2 @ s4"
      and pu: "list_all (\<lambda>c. \<not> isspace_c c) p" "w1 \<noteq> []" "list_all isspace_c w1"
        "d \<noteq> []" "list_all (is_decimal U) d" "w2 \<noteq> []" "list_all isspace_c w2"
      and ru: "(gu, ru) \<in> set (run U (Seq (Group 2 number) (in_chat 3)) (Map.empty(1 \<mapsto> d), s4))"
      by blast
    from unsigned_tail[OF ru] obtain c r where c: "s4 = c # r" "48 \<le> c" "c \<le> 57" by blast
    from re_match_run[OF m] obtain gm rm where
      "(gm, rm) \<in> set (run U modify_pattern (Map.empty, t))" by blast
    from id_and_run[OF this[unfolded modify_pattern_def]] obtain p' w1' d' w2' s4' where
      tm: "t = p' @ w1' @ d' @ w2' @ s4'"
      and pm: "list_all (\<lambda>c. \<not> isspace_c c) p'" "w1' \<noteq> []" "list_all isspace_c w1'"
        "d' \<noteq> []" "list_all (is_decimal U) d'" "w2' \<noteq> []" "list_all isspace_c w2'"
      and rm: "(gm, rm) \<in> set (run U (Seq (Group 2 (Seq (Chars (OneOf [43, 45])) number))
                                        (in_chat 3)) (Map.empty(1 \<mapsto> d'), s4'))"
      by blast
    from sign_tail[OF rm] obtain sg r' where sg: "sg = 43 \<or> sg = 45" "s4' = sg # r'" by blast
    have e: "p @ w1 @ d @ w2 @ c # r = p' @ w1' @ d' @ w2' @ sg # r'"
      using tu tm c(1) sg(2) by simp
    have nc: "\<not> isspace_c c" using c by (auto simp: isspace_c_def)
    have ns: "\<not> isspace_c sg" using sg(1) by (auto simp: isspace_c_def)
    from id_and_unique[OF e pu(1) pm(1) pu(2,3) pm(2,3) pu(4,5) pm(4,5) pu(6,7) pm(6,7) nc ns]
    have "c = sg" .
    then show False using c sg(1) by auto
  qed
  show ?thesis
  proof (intro conjI impI)
    assume "re_match U modify_pattern line = Some g"
    from re_match_Some[OF this] obtain rest where
      "(g, rest) \<in> set (run U modify_pattern (Map.empty, line))" by blast
    from id_and_run[OF this[unfolded modify_pattern_def]] obtain d s4 where
      "(g, rest) \<in> set (run U (Seq (Group 2 (Seq (Chars (OneOf [43, 45])) number)) (in_chat 3))
                            (Map.empty(1 \<mapsto> d), s4))" by blast
    from sign_tail[OF this] show "\<exists>sg num. (sg = 43 \<or> sg = 45) \<and> g 2 = Some (sg # num)"
      by blast
  next
    assume "re_match U unsigned_pattern line \<noteq> None"
    then show "re_match U modify_pattern line = None" by (rule excl)
  next
    assume "re_match U unsigned_pattern (text_of msg) \<noteq> None"
    then have "re_match U modify_pattern (text_of msg) = None" by (rule excl)
    then show "modify_command U rnd sel now_ts msg st = (Inr (False, UsageModify, True), st)"
      by (simp add: modify_command_def modify_execute_def)
  qed
qed

text \<open>
  The line \<open>/expr 5 0.5\<close> has an unsigned delta and is not matched; the line
  \<open>/expr 5 +0.5\<close> is matched, with the id 5 and the delta \<open>+0.5\<close>.
\<close>

theorem signed_delta_witness:
  "re_match ucd_sample modify_pattern (ascii ''/expr 5 0.5'') = None \<and>
   (\<exists>g sg num. re_match ucd_sample modify_pattern (ascii ''/expr 5 +0.5'') = Some g \<and>
      g 2 = Some (sg # num) \<and> (sg = 43 \<or> sg = 45))"
proof -
  have a: "re_match ucd_sample modify_pattern (ascii ''/expr 5 0.5'') = None"
    using signed_delta[where U = ucd_sample and line = "ascii ''/expr 5 0.5''"] unsigned_line
    by blast
  from signed_line obtain g where
    g: "re_match ucd_sample modify_pattern (ascii ''/expr 5 +0.5'') = Some g" by auto
  from signed_delta[where U = ucd_sample and line = "ascii ''/expr 5 +0.5''" and g = g] g
  have "\<exists>sg num. (sg = 43 \<or> sg = 45) \<and> g 2 = Some (sg # num)" by blast
  then show ?thesis using a g by blast
qed

end
